theory Spec2Isabelle
  imports Main "HOL-Library.Sublist"
begin

section \<open>Python strings\<close>

text \<open>
  A Python \<open>str\<close> is modelled as a \<open>string\<close> whose characters are the code points
  0..255, one \<open>char\<close> per code point. The character classes below are those of
  \<open>str.isspace\<close>, \<open>str.lower\<close> and the regular-expression classes \<open>\<backslash>s\<close> and
  \<open>\<backslash>w\<close> on that range.
\<close>

definition py_isspace :: "char \<Rightarrow> bool" where
  "py_isspace c =
     (let n = (of_char c :: nat)
      in (9 \<le> n \<and> n \<le> 13) \<or> (28 \<le> n \<and> n \<le> 32) \<or> n = 133 \<or> n = 160)"

definition py_isword :: "char \<Rightarrow> bool" where
  "py_isword c =
     (let n = (of_char c :: nat)
      in (48 \<le> n \<and> n \<le> 57) \<or> (65 \<le> n \<and> n \<le> 90) \<or> n = 95 \<or> (97 \<le> n \<and> n \<le> 122)
         \<or> n = 170 \<or> n = 178 \<or> n = 179 \<or> n = 181 \<or> n = 185 \<or> n = 186
         \<or> (188 \<le> n \<and> n \<le> 190) \<or> (192 \<le> n \<and> n \<le> 214) \<or> (216 \<le> n \<and> n \<le> 246)
         \<or> 248 \<le> n)"

definition lower_char :: "char \<Rightarrow> char" where
  "lower_char c =
     (let n = (of_char c :: nat)
      in if (65 \<le> n \<and> n \<le> 90) \<or> (192 \<le> n \<and> n \<le> 222 \<and> n \<noteq> 215)
         then char_of (n + 32) else c)"

definition py_lower :: "string \<Rightarrow> string" where
  "py_lower s = map lower_char s"

definition py_strip :: "string \<Rightarrow> string" where
  "py_strip s = rev (dropWhile py_isspace (rev (dropWhile py_isspace s)))"

text \<open>\<open>sub in s\<close> on strings: \<open>sub\<close> occurs in \<open>s\<close> as a contiguous substring.\<close>

fun py_in :: "string \<Rightarrow> string \<Rightarrow> bool" where
  "py_in sub [] = (sub = [])"
| "py_in sub (x # xs) = (prefix sub (x # xs) \<or> py_in sub xs)"

text \<open>\<open>s.split()\<close>: split at runs of whitespace, no empty words.\<close>

fun split_ws :: "string \<Rightarrow> string \<Rightarrow> string list" where
  "split_ws acc [] = (if acc = [] then [] else [rev acc])"
| "split_ws acc (x # xs) =
     (if py_isspace x
      then (if acc = [] then split_ws [] xs else rev acc # split_ws [] xs)
      else split_ws (x # acc) xs)"

definition py_split :: "string \<Rightarrow> string list" where
  "py_split s = split_ws [] s"

text \<open>
  \<open>s.split(sep)\<close>: split at the non-overlapping occurrences of \<open>sep\<close>, scanning from the
  left. \<open>k\<close> counts the characters of a separator still to be skipped. Python raises
  ValueError for an empty separator; every call of the program passes a non-empty
  literal.
\<close>

fun split_scan :: "string \<Rightarrow> nat \<Rightarrow> string \<Rightarrow> string \<Rightarrow> string list" where
  "split_scan sep k acc [] = [rev acc]"
| "split_scan sep (Suc k) acc (x # xs) = split_scan sep k acc xs"
| "split_scan sep 0 acc (x # xs) =
     (if prefix sep (x # xs)
      then rev acc # split_scan sep (length sep - 1) [] xs
      else split_scan sep 0 (x # acc) xs)"

definition py_split_sep :: "string \<Rightarrow> string \<Rightarrow> string list" where
  "py_split_sep sep s = split_scan sep 0 [] s"

text \<open>\<open>sep.join(xs)\<close>.\<close>

fun py_join :: "string \<Rightarrow> string list \<Rightarrow> string" where
  "py_join sep [] = []"
| "py_join sep [x] = x"
| "py_join sep (x # y # ys) = x @ sep @ py_join sep (y # ys)"

text \<open>\<open>s.replace(old, new)\<close> for a non-empty \<open>old\<close>.\<close>

definition py_replace :: "string \<Rightarrow> string \<Rightarrow> string \<Rightarrow> string" where
  "py_replace old new s = py_join new (py_split_sep old s)"

section \<open>Safety filter (utils/safe\_filters.py)\<close>

text \<open>
  The regular expressions of the module use literals, escaped literals and \<open>\<backslash>s+\<close> only.
  \<open>compile_re\<close> reads a pattern's source text into atoms; \<open>match_here\<close> matches the atoms
  at the start of a string and returns the length of the match, \<open>\<backslash>s+\<close> taking the
  longest run first and giving characters back when the rest fails. The flag
  is \<open>re.IGNORECASE\<close>.
\<close>

definition bs :: char where
  "bs = CHR 0x5C"

datatype re_atom = Lit char | SpacePlus

fun compile_re :: "string \<Rightarrow> re_atom list" where
  "compile_re [] = []"
| "compile_re [c] = [Lit c]"
| "compile_re [b, c] = (if b = bs then [Lit c] else [Lit b, Lit c])"
| "compile_re (b # c # p # rest) =
     (if b = bs \<and> c = CHR ''s'' \<and> p = CHR ''+'' then SpacePlus # compile_re rest
      else if b = bs then Lit c # compile_re (p # rest)
      else Lit b # compile_re (c # p # rest))"

fun match_here :: "bool \<Rightarrow> re_atom list \<Rightarrow> string \<Rightarrow> nat option" where
  "match_here ic [] s = Some 0"
| "match_here ic (a # as) [] = None"
| "match_here ic (Lit c # as) (x # xs) =
     (if (if ic then lower_char x = lower_char c else x = c)
      then map_option Suc (match_here ic as xs) else None)"
| "match_here ic (SpacePlus # as) (x # xs) =
     (if py_isspace x
      then (case match_here ic (SpacePlus # as) xs of
              Some n \<Rightarrow> Some (Suc n)
            | None \<Rightarrow> map_option Suc (match_here ic as xs))
      else None)"

text \<open>
  \<open>re.finditer\<close>: the matches of a pattern from left to right, none overlapping an
  earlier one. The matcher \<open>m\<close> gives, at the start of a string, the length of the
  match and the text of group 1; \<open>k\<close> counts the characters of the last match still
  to be passed. Each result is (start, matched text, group 1). None of the module's
  patterns matches the empty string.
\<close>

fun finditer_scan ::
  "(string \<Rightarrow> (nat \<times> string) option) \<Rightarrow> nat \<Rightarrow> nat \<Rightarrow> string \<Rightarrow> (nat \<times> string \<times> string) list"
where
  "finditer_scan m off k [] = []"
| "finditer_scan m off (Suc k) (x # xs) = finditer_scan m (Suc off) k xs"
| "finditer_scan m off 0 (x # xs) =
     (case m (x # xs) of
        None \<Rightarrow> finditer_scan m (Suc off) 0 xs
      | Some (n, g) \<Rightarrow> (off, take n (x # xs), g) # finditer_scan m (Suc off) (n - 1) xs)"

definition re_finditer ::
  "(string \<Rightarrow> (nat \<times> string) option) \<Rightarrow> string \<Rightarrow> (nat \<times> string \<times> string) list" where
  "re_finditer m s = finditer_scan m 0 0 s"

definition re_matcher :: "bool \<Rightarrow> string \<Rightarrow> string \<Rightarrow> (nat \<times> string) option" where
  "re_matcher ic pat s = map_option (\<lambda>n. (n, [])) (match_here ic (compile_re pat) s)"

definition DANGEROUS_PATTERNS :: "string list" where
  "DANGEROUS_PATTERNS =
     [''os'' @ bs # ''.system'',
      ''os'' @ bs # ''.remove'',
      ''os'' @ bs # ''.rmdir'',
      ''shutil'' @ bs # ''.rmtree'',
      ''subprocess'' @ bs # ''.'',
      ''urllib'' @ bs # ''.request'',
      ''requests'' @ bs # ''.'',
      ''socket'' @ bs # ''.'',
      ''http'' @ bs # ''.'',
      ''eval'' @ bs # ''('',
      ''exec'' @ bs # ''('',
      ''__import__'',
      ''compile'' @ bs # ''('',
      ''open'' @ bs # ''('',
      ''file'' @ bs # ''('',
      ''with'' @ bs # ''s+open'']"

definition ALLOWED_IMPORTS :: "string set" where
  "ALLOWED_IMPORTS = {''bpy'', ''mathutils'', ''bmesh'', ''math'', ''random'', ''datetime''}"

record violation =
  pattern :: string
  match :: string
  position :: nat

definition pattern_violations :: "string \<Rightarrow> string \<Rightarrow> violation list" where
  "pattern_violations code pat =
     map (\<lambda>(start, txt, g). \<lparr>pattern = pat, match = txt, position = start\<rparr>)
       (re_finditer (re_matcher True pat) code)"

definition check_dangerous_patterns :: "string \<Rightarrow> bool \<times> violation list" where
  "check_dangerous_patterns code =
     (let violations = concat (map (pattern_violations code) DANGEROUS_PATTERNS)
      in (length violations = 0, violations))"

text \<open>
  The import pattern \<open>(?:from|import)\<backslash>s+(\<backslash>w+)\<close>, matched case-sensitively: one of
  the two keywords, the longest run of whitespace, the longest run of word
  characters (group 1). Whitespace and word characters are disjoint, so giving
  characters back never turns a failure into a match.
\<close>

definition import_matcher :: "string \<Rightarrow> (nat \<times> string) option" where
  "import_matcher s =
     (case (if prefix ''from'' s then Some (4::nat)
            else if prefix ''import'' s then Some 6 else None) of
        None \<Rightarrow> None
      | Some k \<Rightarrow>
          (let r = drop k s;
               ws = takeWhile py_isspace r;
               w = takeWhile py_isword (dropWhile py_isspace r)
           in if ws = [] \<or> w = [] then None
              else Some (k + length ws + length w, w)))"

definition check_imports :: "string \<Rightarrow> bool \<times> string list" where
  "check_imports code =
     (let disallowed =
            filter (\<lambda>module. module \<notin> ALLOWED_IMPORTS)
              (map (\<lambda>(start, txt, g). g) (re_finditer import_matcher code))
      in (length disallowed = 0, disallowed))"

text \<open>
  \<open>validate_code_safety\<close>. The built-in \<open>compile\<close> is a parameter: \<open>py_compile code\<close>
  is the message of the SyntaxError it raises, or \<open>None\<close> when the code parses.
\<close>

definition validate_code_safety ::
  "(string \<Rightarrow> string option) \<Rightarrow> string \<Rightarrow> bool \<times> string option" where
  "validate_code_safety py_compile code =
     (case check_dangerous_patterns code of (patterns_safe, violations) \<Rightarrow>
        if \<not> patterns_safe
        then (False, Some (''Dangerous patterns detected: '' @ py_join '', '' (map match violations)))
        else (case check_imports code of (imports_safe, disallowed) \<Rightarrow>
          if \<not> imports_safe
          then (False, Some (''Disallowed imports: '' @ py_join '', '' disallowed))
          else (case py_compile code of
                  Some e \<Rightarrow> (False, Some (''Syntax error: '' @ e))
                | None \<Rightarrow> (True, None))))"

section \<open>Script validation and execution (blender\_addon/blender\_utils.py)\<close>

text \<open>
  Exceptions are values. \<open>RuntimeError\<close> is what the add-on raises itself,
  \<open>OtherException\<close> any other subclass of \<open>Exception\<close>, and \<open>BaseException\<close> an exception
  outside \<open>Exception\<close> (KeyboardInterrupt, SystemExit), which \<open>except Exception\<close> does
  not catch. The string is \<open>str(e)\<close>.
\<close>

datatype py_exception = RuntimeError string | OtherException string | BaseException string

fun is_Exception :: "py_exception \<Rightarrow> bool" where
  "is_Exception (RuntimeError m) = True"
| "is_Exception (OtherException m) = True"
| "is_Exception (BaseException m) = False"

fun py_str :: "py_exception \<Rightarrow> string" where
  "py_str (RuntimeError m) = m"
| "py_str (OtherException m) = m"
| "py_str (BaseException m) = m"

definition FORBIDDEN_TOKENS :: "string list" where
  "FORBIDDEN_TOKENS =
     [''import os'', ''subprocess'', ''open('', ''__import__'', ''eval('', ''exec('', ''os.system'',
      ''bpy.ops.wm.open_mainfile'', ''bpy.ops.wm.read_homefile'']"

fun validate_tokens :: "string list \<Rightarrow> string \<Rightarrow> py_exception + unit" where
  "validate_tokens [] src = Inr ()"
| "validate_tokens (tok # toks) src =
     (if py_in tok src then Inl (RuntimeError (''Unsafe token detected in script: '' @ tok))
      else validate_tokens toks src)"

definition validate_script :: "string \<Rightarrow> py_exception + unit" where
  "validate_script src = validate_tokens FORBIDDEN_TOKENS src"

text \<open>
  The Python interpreter and the host application are parameters. A world \<open>'w\<close> is the
  state of the host; a callable takes the world and returns the exception it raised,
  if any, and the new world; \<open>exec(src, ns)\<close> runs the module-level statements of
  \<open>src\<close> and either raises or leaves the names it defined.
\<close>

type_synonym 'w callable = "'w \<Rightarrow> py_exception option \<times> 'w"

type_synonym 'w namespace = "string \<Rightarrow> 'w callable option"

type_synonym 'w interpreter = "string \<Rightarrow> 'w \<Rightarrow> (py_exception + 'w namespace) \<times> 'w"

definition exec_script_in_current_scene ::
  "'w interpreter \<Rightarrow> string \<Rightarrow> 'w \<Rightarrow> (py_exception + unit) \<times> 'w" where
  "exec_script_in_current_scene py_exec script_src w =
     (case validate_script script_src of
        Inl e \<Rightarrow> (Inl e, w)
      | Inr u \<Rightarrow>
          (case py_exec script_src w of
             (Inl e, w1) \<Rightarrow> (Inl e, w1)
           | (Inr ns, w1) \<Rightarrow>
               (case ns ''rendermind_action'' of
                  None \<Rightarrow> (Inl (RuntimeError ''Script must define `rendermind_action(context)`''), w1)
                | Some f \<Rightarrow>
                    (case f w1 of
                       (Some e, w2) \<Rightarrow> (Inl e, w2)
                     | (None, w2) \<Rightarrow> (Inr (), w2)))))"

section \<open>Conversation state and chat operators (blender\_addon/operators.py)\<close>

datatype role = USER | AI | SYSTEM

datatype status = NONE | THINKING | SUCCESS | ERROR

record RMChatMessage =
  role :: role
  content :: string
  code :: string
  timestamp :: string
  status :: status
  error_msg :: string
  show_code :: bool

text \<open>A message as \<open>chat_messages.add()\<close> creates it: every property at its default.\<close>

definition new_message :: RMChatMessage where
  "new_message =
     \<lparr>role = USER, content = [], code = [], timestamp = [], status = NONE, error_msg = [],
      show_code = False\<rparr>"

record RMProps =
  chat_messages :: "RMChatMessage list"
  chat_input :: string
  is_thinking :: bool
  auto_execute :: bool
  plan_text :: string

datatype report_level = INFO | WARNING | ERROR_REPORT

text \<open>
  The state an operator works on, all of which a script executed inside the host can
  reach: \<open>props\<close> is \<open>scene.rm_props\<close>; \<open>world\<close> is the rest of the host
  application; \<open>faults\<close> is the state of the global names of the operators' module
  (the modules it imported, and the built-ins it reaches through its globals): for a
  name, \<open>None\<close> while it is bound as when the module was loaded, and the text of the
  exception that using it raises once a script has rebound it
  (\<open>exec(msg.code, globals())\<close> executes the script in the module's own globals);
  \<open>ticks\<close> counts the readings of the clock; \<open>reports\<close> are the operator's reports.
\<close>

record 'w host =
  props :: RMProps
  world :: 'w
  faults :: "string \<Rightarrow> string option"
  ticks :: nat
  reports :: "(report_level \<times> string) list"

datatype op_result = FINISHED | CANCELLED

text \<open>
  Statements are actions on the host that return a value or raise. \<open>then_do\<close> is
  sequencing: an exception ends the sequence. \<open>try_except\<close> is
  \<open>try ... except Exception as e\<close>: the handler receives the exceptions of class
  \<open>Exception\<close>, every other exception passes through. \<open>lookup\<close> is the use of a global
  name of the module. Names used again with no script executed in between are looked
  up once.
\<close>

type_synonym ('w, 'a) action = "'w host \<Rightarrow> (py_exception + 'a) \<times> 'w host"

definition finish :: "'a \<Rightarrow> ('w, 'a) action" where
  "finish x h = (Inr x, h)"

definition raises :: "py_exception \<Rightarrow> ('w, 'a) action" where
  "raises e h = (Inl e, h)"

definition then_do :: "('w, 'a) action \<Rightarrow> ('a \<Rightarrow> ('w, 'b) action) \<Rightarrow> ('w, 'b) action" where
  "then_do m f h = (case m h of (Inl e, h1) \<Rightarrow> (Inl e, h1) | (Inr x, h1) \<Rightarrow> f x h1)"

definition try_except :: "('w, 'a) action \<Rightarrow> (py_exception \<Rightarrow> ('w, 'a) action) \<Rightarrow> ('w, 'a) action" where
  "try_except m handler h =
     (case m h of
        (Inl e, h1) \<Rightarrow> if is_Exception e then handler e h1 else (Inl e, h1)
      | (Inr x, h1) \<Rightarrow> (Inr x, h1))"

definition assign :: "('w host \<Rightarrow> 'w host) \<Rightarrow> ('w, unit) action" where
  "assign f h = (Inr (), f h)"

definition lookup :: "string \<Rightarrow> ('w, unit) action" where
  "lookup name h =
     (case faults h name of
        None \<Rightarrow> (Inr (), h)
      | Some t \<Rightarrow> (Inl (OtherException t), h))"

definition report :: "report_level \<Rightarrow> string \<Rightarrow> 'w host \<Rightarrow> 'w host" where
  "report lvl msg h = h\<lparr>reports := reports h @ [(lvl, msg)]\<rparr>"

definition add_message :: "RMChatMessage \<Rightarrow> 'w host \<Rightarrow> 'w host" where
  "add_message m h = h\<lparr>props := (props h)\<lparr>chat_messages := chat_messages (props h) @ [m]\<rparr>\<rparr>"

text \<open>Assignment to a property of the message added last, with no script in between.\<close>

definition update_last :: "(RMChatMessage \<Rightarrow> RMChatMessage) \<Rightarrow> 'w host \<Rightarrow> 'w host" where
  "update_last f h =
     (let ms = chat_messages (props h)
      in h\<lparr>props := (props h)\<lparr>chat_messages := butlast ms @ [f (last ms)]\<rparr>\<rparr>)"

definition set_thinking :: "bool \<Rightarrow> 'w host \<Rightarrow> 'w host" where
  "set_thinking b h = h\<lparr>props := (props h)\<lparr>is_thinking := b\<rparr>\<rparr>"

definition set_message :: "nat \<Rightarrow> (RMChatMessage \<Rightarrow> RMChatMessage) \<Rightarrow> 'w host \<Rightarrow> 'w host" where
  "set_message i f h =
     (let ms = chat_messages (props h)
      in h\<lparr>props := (props h)\<lparr>chat_messages := ms[i := f (ms ! i)]\<rparr>\<rparr>)"

text \<open>
  Assignment to a property of a turn through the reference the operator took before
  a script was executed. The reference is the position of the turn. When the script
  has left no turn at that position the host gives no guarantee; the model raises.
\<close>

definition write_turn :: "nat \<Rightarrow> (RMChatMessage \<Rightarrow> RMChatMessage) \<Rightarrow> ('w, unit) action" where
  "write_turn i f h =
     (if i < length (chat_messages (props h)) then (Inr (), set_message i f h)
      else (Inl (OtherException ''StructRNA of type RMChatMessage has been removed''), h))"

text \<open>
  The environment of \<open>RM_OT_SendMessage.execute\<close>: \<open>clock k\<close> is the text of the
  reading of the time after \<open>k\<close> earlier readings; \<open>generate\<close> is
  \<open>model_interface.generate_blender_code\<close>, which raises or returns the triple
  (code, message, error), each a string or \<open>None\<close>; \<open>py_exec\<close> is the interpreter,
  whose scripts act on the host. Assigning \<open>None\<close> to a string property raises
  TypeError.
\<close>

record 'w send_env =
  clock :: "nat \<Rightarrow> string"
  generate :: "string \<Rightarrow> py_exception + (string option \<times> string option \<times> string option)"
  py_exec :: "'w host interpreter"

definition none_assigned :: py_exception where
  "none_assigned = OtherException ''expected a string type, not NoneType''"

definition truthy :: "string option \<Rightarrow> bool" where
  "truthy v = (case v of None \<Rightarrow> False | Some s \<Rightarrow> s \<noteq> [])"

text \<open>\<open>datetime.now().strftime("%H:%M")\<close>.\<close>

definition now :: "'w send_env \<Rightarrow> ('w, string) action" where
  "now env =
     then_do (lookup ''datetime'')
       (\<lambda>u h. (Inr (clock env (ticks h)), h\<lparr>ticks := Suc (ticks h)\<rparr>))"

text \<open>
  The inner \<open>try\<close> of \<open>RM_OT_SendMessage.execute\<close>, lines 59 to 67; \<open>j\<close> is the position
  of the assistant's turn.
\<close>

definition auto_execute_step :: "'w send_env \<Rightarrow> string \<Rightarrow> nat \<Rightarrow> ('w, unit) action" where
  "auto_execute_step env c j =
     try_except
       (then_do (lookup ''blender_utils'') (\<lambda>u.
        then_do (exec_script_in_current_scene (py_exec env) c) (\<lambda>u.
        then_do (write_turn j (\<lambda>m. m\<lparr>status := SUCCESS\<rparr>)) (\<lambda>u.
        assign (report INFO ''Code generated and executed successfully'')))))
       (\<lambda>e.
        then_do (write_turn j (\<lambda>m. m\<lparr>status := ERROR\<rparr>)) (\<lambda>u.
        then_do (lookup ''str'') (\<lambda>u.
        then_do (write_turn j (\<lambda>m. m\<lparr>error_msg := py_str e\<rparr>)) (\<lambda>u.
        assign (report WARNING (''Execution failed: '' @ py_str e))))))"

text \<open>Lines 38 to 48: the backend returned an error.\<close>

definition report_backend_error :: "'w send_env \<Rightarrow> string \<Rightarrow> ('w, op_result) action" where
  "report_backend_error env err =
     then_do (assign (add_message
                (new_message\<lparr>role := AI, content := ''Sorry, I encountered an error: '' @ err\<rparr>))) (\<lambda>u.
     then_do (now env) (\<lambda>t.
     then_do (assign (update_last (\<lambda>m. m\<lparr>timestamp := t, status := ERROR, error_msg := err\<rparr>))) (\<lambda>u.
     then_do (assign (set_thinking False)) (\<lambda>u.
     then_do (assign (report ERROR_REPORT err)) (\<lambda>u.
     finish CANCELLED)))))"

text \<open>Lines 50 to 71: the assistant's turn, and its execution when auto-execute is on.\<close>

definition respond :: "'w send_env \<Rightarrow> string option \<Rightarrow> string option \<Rightarrow> ('w, op_result) action" where
  "respond env ai_message code_v =
     then_do (assign (add_message (new_message\<lparr>role := AI\<rparr>))) (\<lambda>u.
     then_do (case ai_message of
                None \<Rightarrow> raises none_assigned
              | Some msg \<Rightarrow> assign (update_last (\<lambda>m. m\<lparr>content := msg\<rparr>))) (\<lambda>u.
     case code_v of
       None \<Rightarrow> raises none_assigned
     | Some c \<Rightarrow>
         then_do (assign (update_last (\<lambda>m. m\<lparr>code := c\<rparr>))) (\<lambda>u.
         then_do (now env) (\<lambda>t.
         then_do (assign (update_last (\<lambda>m. m\<lparr>timestamp := t, status := NONE\<rparr>))) (\<lambda>u.
         then_do (\<lambda>h. (if auto_execute (props h)
                        then auto_execute_step env c (length (chat_messages (props h)) - 1)
                        else assign (report INFO ''Response generated. Click 'Run' to execute.'')) h) (\<lambda>u.
         then_do (assign (set_thinking False)) (\<lambda>u.
         finish FINISHED)))))))"

text \<open>The body of the outer \<open>try\<close>, lines 23 to 71.\<close>

definition send_try :: "'w send_env \<Rightarrow> string \<Rightarrow> ('w, op_result) action" where
  "send_try env user_input =
     then_do (assign (add_message (new_message\<lparr>role := USER, content := user_input\<rparr>))) (\<lambda>u.
     then_do (now env) (\<lambda>t.
     then_do (assign (update_last (\<lambda>m. m\<lparr>timestamp := t\<rparr>))) (\<lambda>u.
     then_do (assign (\<lambda>h. h\<lparr>props := (props h)\<lparr>chat_input := []\<rparr>\<rparr>)) (\<lambda>u.
     then_do (assign (set_thinking True)) (\<lambda>u.
     then_do (lookup ''model_interface'') (\<lambda>u.
     then_do (\<lambda>h. (generate env user_input, h)) (\<lambda>(code_v, ai_message, error).
     if truthy error
     then report_backend_error env (case error of Some t \<Rightarrow> t | None \<Rightarrow> [])
     else respond env ai_message code_v)))))))"

text \<open>The handler of the outer \<open>try\<close>, lines 73 to 85.\<close>

definition send_handler :: "'w send_env \<Rightarrow> py_exception \<Rightarrow> ('w, op_result) action" where
  "send_handler env e =
     then_do (assign (set_thinking False)) (\<lambda>u.
     then_do (lookup ''traceback'') (\<lambda>u.
     then_do (assign (add_message (new_message\<lparr>role := SYSTEM\<rparr>))) (\<lambda>u.
     then_do (lookup ''str'') (\<lambda>u.
     then_do (assign (update_last (\<lambda>m. m\<lparr>content := ''Error: '' @ py_str e\<rparr>))) (\<lambda>u.
     then_do (now env) (\<lambda>t.
     then_do (assign (update_last (\<lambda>m. m\<lparr>timestamp := t, status := ERROR\<rparr>))) (\<lambda>u.
     then_do (assign (report ERROR_REPORT (py_str e))) (\<lambda>u.
     finish CANCELLED))))))))"

definition RM_OT_SendMessage_execute :: "'w send_env \<Rightarrow> ('w, op_result) action" where
  "RM_OT_SendMessage_execute env h =
     (let user_input = py_strip (chat_input (props h))
      in if user_input = []
         then then_do (assign (report WARNING ''Please enter a message'')) (\<lambda>u. finish CANCELLED) h
         else try_except (send_try env user_input) (send_handler env) h)"

definition RM_OT_ClearChat_execute :: "('w, op_result) action" where
  "RM_OT_ClearChat_execute h =
     (Inr FINISHED, report INFO ''Chat cleared'' (h\<lparr>props := (props h)\<lparr>chat_messages := []\<rparr>\<rparr>))"

text \<open>
  \<open>RM_OT_RunMessageCode.execute\<close>. \<open>validate_and_exec\<close> is lines 125 and 126:
  validate the code, execute it in the module's globals. The names the script
  defines or rebinds stay in those globals: this is the interpreter's effect on
  \<open>faults\<close>.
\<close>

definition exec_in_globals :: "'w host interpreter \<Rightarrow> string \<Rightarrow> ('w, unit) action" where
  "exec_in_globals py_ex src h =
     (case py_ex src h of
        (Inl e, h1) \<Rightarrow> (Inl e, h1)
      | (Inr ns, h1) \<Rightarrow> (Inr (), h1))"

definition validate_and_exec :: "'w host interpreter \<Rightarrow> string \<Rightarrow> ('w, unit) action" where
  "validate_and_exec py_ex src =
     then_do (lookup ''blender_utils'') (\<lambda>u.
     then_do (\<lambda>h. (validate_script src, h)) (\<lambda>u.
     then_do (lookup ''exec'') (\<lambda>u.
     then_do (lookup ''globals'') (\<lambda>u.
     exec_in_globals py_ex src))))"

text \<open>The handler, lines 130 to 135; \<open>i\<close> is the position of the turn.\<close>

definition run_handler :: "nat \<Rightarrow> py_exception \<Rightarrow> ('w, op_result) action" where
  "run_handler i e =
     then_do (lookup ''traceback'') (\<lambda>u.
     then_do (write_turn i (\<lambda>m. m\<lparr>status := ERROR\<rparr>)) (\<lambda>u.
     then_do (lookup ''str'') (\<lambda>u.
     then_do (write_turn i (\<lambda>m. m\<lparr>error_msg := py_str e\<rparr>)) (\<lambda>u.
     then_do (assign (report ERROR_REPORT (''Execution failed: '' @ py_str e))) (\<lambda>u.
     finish CANCELLED)))))"

text \<open>
  \<open>message_index\<close> is an integer property; an index below zero counts from the end
  of the collection, and one that is still out of range raises IndexError outside
  the \<open>try\<close>.
\<close>

definition RM_OT_RunMessageCode_execute :: "'w host interpreter \<Rightarrow> int \<Rightarrow> ('w, op_result) action" where
  "RM_OT_RunMessageCode_execute py_ex message_index =
     then_do (lookup ''len'') (\<lambda>u h.
       let ms = chat_messages (props h); n = int (length ms)
       in if message_index \<ge> n
          then then_do (assign (report ERROR_REPORT ''Invalid message index'')) (\<lambda>u. finish CANCELLED) h
          else if message_index + n < 0
          then raises (OtherException ''bpy_prop_collection[index]: index out of range'') h
          else (let i = nat (if message_index < 0 then message_index + n else message_index);
                    msg = ms ! i
                in if code msg = []
                   then then_do (assign (report WARNING ''No code to execute'')) (\<lambda>u. finish CANCELLED) h
                   else try_except
                          (then_do (validate_and_exec py_ex (code msg)) (\<lambda>u.
                           then_do (write_turn i (\<lambda>m. m\<lparr>status := SUCCESS\<rparr>)) (\<lambda>u.
                           then_do (write_turn i (\<lambda>m. m\<lparr>error_msg := []\<rparr>)) (\<lambda>u.
                           then_do (assign (report INFO ''Code executed successfully'')) (\<lambda>u.
                           finish FINISHED)))))
                          (run_handler i) h))"

section \<open>Plan-to-script emitter (blender\_addon/plan\_emitter.py)\<close>

text \<open>\<open>s.find(sub)\<close>: the index of the first occurrence, \<open>None\<close> where Python gives -1.\<close>

fun py_find :: "string \<Rightarrow> string \<Rightarrow> nat option" where
  "py_find sub [] = (if sub = [] then Some 0 else None)"
| "py_find sub (x # xs) =
     (if prefix sub (x # xs) then Some 0 else map_option Suc (py_find sub xs))"

text \<open>\<open>xs[i]\<close> for \<open>i \<ge> 0\<close>: IndexError out of range.\<close>

definition py_nth :: "'a list \<Rightarrow> nat \<Rightarrow> py_exception + 'a" where
  "py_nth xs i = (if i < length xs then Inr (xs ! i) else Inl (OtherException ''list index out of range''))"

text \<open>\<open>s.strip(chars)\<close>.\<close>

definition py_strip_chars :: "string \<Rightarrow> string \<Rightarrow> string" where
  "py_strip_chars chars s =
     rev (dropWhile (\<lambda>c. c \<in> set chars) (rev (dropWhile (\<lambda>c. c \<in> set chars) s)))"

text \<open>
  \<open>radius_token\<close> is the argument of \<open>float\<close> in the \<open>try\<close> body: the text after the
  first \<open>r=\<close>, up to the first comma, its first word, without leading and trailing
  \<open>)\<close> and \<open>;\<close>. Every raise of the \<open>try\<close> body is a branch.
\<close>

definition radius_token :: "string \<Rightarrow> py_exception + string" where
  "radius_token p =
     (case py_find ''r='' p of
        None \<Rightarrow> Inl (OtherException ''substring not found'')
      | Some i \<Rightarrow>
          (let ii = i + 2
           in case py_nth (py_split_sep '','' (drop ii p)) 0 of
                Inl e \<Rightarrow> Inl e
              | Inr part \<Rightarrow>
                  (case py_nth (py_split part) 0 of
                     Inl e \<Rightarrow> Inl e
                   | Inr word \<Rightarrow> Inr (py_strip_chars '');'' word))))"

text \<open>
  Floating point is a parameter: \<open>py_float t\<close> is the text that formatting
  \<open>float(t)\<close> gives (\<open>0.5\<close> for the default), or \<open>None\<close> when \<open>float(t)\<close> raises
  ValueError.
\<close>

definition parse_radius :: "(string \<Rightarrow> string option) \<Rightarrow> string \<Rightarrow> py_exception + string" where
  "parse_radius py_float p =
     (case radius_token p of
        Inl e \<Rightarrow> Inl e
      | Inr tok \<Rightarrow>
          (case py_float tok of
             None \<Rightarrow> Inl (OtherException ''could not convert string to float'')
           | Some r \<Rightarrow> Inr r))"

definition header_lines :: "string list" where
  "header_lines =
     [''def rendermind_action(context: dict) -> None:'',
      ''    import bpy'']"

definition sphere_lines :: "string \<Rightarrow> string list" where
  "sphere_lines r =
     [''    bpy.ops.mesh.primitive_uv_sphere_add(radius='' @ r @ '', location=(0,0,0.5))'',
      ''    obj = bpy.context.active_object'',
      ''    obj.name = 'rm_sphere'' @ [CHR 0x27],
      ''    mat = bpy.data.materials.new('rm_mat')'',
      ''    mat.use_nodes = True'',
      ''    bsdf = mat.node_tree.nodes.get('Principled BSDF')'',
      ''    if bsdf: bsdf.inputs['Base Color'].default_value=(0.8,0.2,0.2,1)'',
      ''    obj.data.materials.append(mat)'']"

definition cylinder_lines :: "string list" where
  "cylinder_lines =
     [''    bpy.ops.mesh.primitive_cylinder_add(radius=0.25, depth=0.6, location=(0,1,0.3))'',
      ''    obj = bpy.context.active_object'',
      ''    obj.name = 'rm_cylinder'' @ [CHR 0x27],
      ''    mat = bpy.data.materials.new('rm_ceramic')'',
      ''    mat.use_nodes = True'',
      ''    bsdf = mat.node_tree.nodes.get('Principled BSDF')'',
      ''    if bsdf: bsdf.inputs['Roughness'].default_value = 0.15'',
      ''    obj.data.materials.append(mat)'']"

definition placeholder_lines :: "string list" where
  "placeholder_lines =
     [''    # Plan not implemented in emitter placeholder'',
      ''    print('Plan not implemented')'']"

definition emitter_plan_to_script :: "(string \<Rightarrow> string option) \<Rightarrow> string \<Rightarrow> string" where
  "emitter_plan_to_script py_float plan =
     (let p = py_lower plan
      in py_join ''\<newline>''
           (header_lines @
            (if py_in ''uv_sphere'' p \<or> py_in ''sphere'' p
             then (let r = (if py_in ''r='' p
                            then (case parse_radius py_float p of
                                    Inr v \<Rightarrow> v
                                  | Inl e \<Rightarrow> ''0.5'')
                            else ''0.5'')
                   in sphere_lines r)
             else if py_in ''cylinder'' p then cylinder_lines
             else placeholder_lines)))"

section \<open>Response splitting (model\_interface.py, generate\_blender\_code)\<close>

text \<open>
  The fallback message ends in the sign U+2728, outside the modelled range of
  characters; it stands here as its three UTF-8 bytes. Nothing inspects it.
\<close>

definition fallback_message :: string where
  "fallback_message = ''I've generated the code for you! '' @ [CHR 0xE2, CHR 0x9C, CHR 0xA8]"

definition fence_python :: string where
  "fence_python = ''```python''"

definition fence :: string where
  "fence = ''```''"

text \<open>
  Lines 224 to 240 of \<open>generate_blender_code\<close>: from the backend's text to
  (code, message). The indexing of the lists that \<open>split\<close> returns raises
  IndexError out of range.
\<close>

definition fenced_parts :: "string \<Rightarrow> string \<Rightarrow> py_exception + (string \<times> string)" where
  "fenced_parts marker full_response =
     (case py_nth (py_split_sep marker full_response) 1 of
        Inl e \<Rightarrow> Inl e
      | Inr rest \<Rightarrow>
          (case py_nth (py_split_sep fence rest) 0 of
             Inl e \<Rightarrow> Inl e
           | Inr inside \<Rightarrow>
               (case py_nth (py_split_sep marker full_response) 0 of
                  Inl e \<Rightarrow> Inl e
                | Inr pre \<Rightarrow> Inr (py_strip inside, py_strip pre))))"

definition split_response :: "string \<Rightarrow> py_exception + (string \<times> string)" where
  "split_response full_response =
     (case (if py_in fence_python full_response then fenced_parts fence_python full_response
            else if py_in fence full_response then fenced_parts fence full_response
            else Inr (full_response, full_response)) of
        Inl e \<Rightarrow> Inl e
      | Inr (code_text, ai_message) \<Rightarrow>
          Inr (code_text,
               if ai_message = [] \<or> ai_message = full_response then fallback_message
               else ai_message))"

section \<open>Asset matcher (blender\_addon/model\_library.py)\<close>

text \<open>
  \<open>pathlib\<close>: the suffix of a file name starts at its last dot, unless that dot is
  the first or the last character; the stem is the rest.
\<close>

definition rfind_dot :: "string \<Rightarrow> nat option" where
  "rfind_dot name =
     (let k = length (takeWhile (\<lambda>c. c \<noteq> CHR ''.'') (rev name))
      in if k = length name then None else Some (length name - 1 - k))"

definition path_suffix :: "string \<Rightarrow> string" where
  "path_suffix name =
     (case rfind_dot name of
        None \<Rightarrow> []
      | Some i \<Rightarrow> if 0 < i \<and> i + 1 < length name then drop i name else [])"

definition path_stem :: "string \<Rightarrow> string" where
  "path_stem name =
     (case rfind_dot name of
        None \<Rightarrow> name
      | Some i \<Rightarrow> if 0 < i \<and> i + 1 < length name then take i name else name)"

definition supported_formats :: "string set" where
  "supported_formats = {''.blend'', ''.fbx'', ''.obj'', ''.gltf'', ''.glb'', ''.stl''}"

definition stop_words :: "string list" where
  "stop_words = [''add'', ''the'', ''create'', ''make'', ''place'', ''import'', ''put'']"

definition clean_stem :: "string \<Rightarrow> string" where
  "clean_stem file_stem =
     py_replace ''_8k'' [] (py_replace ''_4k'' [] (py_replace ''_02'' []
       (py_replace ''_01'' [] (py_replace ''food_'' [] file_stem))))"

definition meaningful :: "string list \<Rightarrow> string list" where
  "meaningful query_words = filter (\<lambda>w. length w \<ge> 3 \<and> w \<notin> set stop_words) query_words"

text \<open>The \<open>if\<close>/\<open>elif\<close> chain of \<open>search_models\<close> that scores one file.\<close>

definition score_file :: "string \<Rightarrow> string list \<Rightarrow> string \<Rightarrow> nat" where
  "score_file query_lower query_words file_stem =
     (let clean_filename = clean_stem file_stem;
          meaningful_words = meaningful query_words
      in if query_lower = file_stem \<or> query_lower = clean_filename then 100
         else if list_ex (\<lambda>word. word = clean_filename) meaningful_words then 100
         else if list_ex (\<lambda>word. py_in word clean_filename) meaningful_words then 90
         else if py_in query_lower clean_filename then 85
         else if py_in query_lower file_stem then 80
         else if length query_words \<ge> 2 \<and>
                 list_all (\<lambda>word. py_in word file_stem) (filter (\<lambda>word. length word > 2) query_words)
              then 70
         else if length query_words = 1 \<and> length query_lower \<ge> 4 \<and> py_in query_lower file_stem
              then 60
         else 0)"

record model_match =
  path :: string
  filename :: string
  category :: string
  score :: nat
  format :: string

definition category_of :: "string \<Rightarrow> string \<Rightarrow> string" where
  "category_of assets_dir root =
     (if root = assets_dir then ''root''
      else if prefix (assets_dir @ ''/'') root then drop (length assets_dir + 1) root
      else ''root'')"

text \<open>
  The files of the asset tree are a parameter: \<open>None\<close> when the directory does not
  exist, otherwise what \<open>os.walk\<close> yields, the directories in traversal order, each
  with its file names. \<open>candidate\<close> is the body of the loop over the files;
  \<open>list.sort\<close> with \<open>reverse=True\<close> is the stable sort by descending key. Paths are
  joined with \<open>/\<close>, as \<open>pathlib\<close> does on POSIX systems.
\<close>

definition candidate :: "string \<Rightarrow> string \<Rightarrow> string list \<Rightarrow> string \<Rightarrow> string \<Rightarrow> model_match list" where
  "candidate assets_dir query_lower query_words root file =
     (let file_ext = py_lower (path_suffix file)
      in if file_ext \<notin> supported_formats then []
         else (let sc = score_file query_lower query_words (py_lower (path_stem file))
               in if sc > 0
                  then [\<lparr>path = root @ ''/'' @ file, filename = file,
                         category = category_of assets_dir root, score = sc, format = file_ext\<rparr>]
                  else []))"

definition candidates :: "string \<Rightarrow> string \<Rightarrow> (string \<times> string list) list \<Rightarrow> model_match list" where
  "candidates assets_dir query walk =
     (let query_lower = py_strip (py_lower query);
          query_words = py_split query_lower
      in concat (map (\<lambda>(root, files).
                        concat (map (candidate assets_dir query_lower query_words root) files)) walk))"

definition search_models ::
  "string \<Rightarrow> (string \<times> string list) list option \<Rightarrow> string \<Rightarrow> model_match list" where
  "search_models assets_dir tree query =
     (case tree of
        None \<Rightarrow> []
      | Some walk \<Rightarrow> sort_key (\<lambda>x. - int (score x)) (candidates assets_dir query walk))"

section \<open>Preview operators (blender\_addon/operators.py)\<close>

text \<open>
  The scenes of the host: \<open>scenes\<close> are the scenes in \<open>bpy.data.scenes\<close>, each an
  identifier, \<open>next_scene\<close> is the identifier that the next new scene receives and
  \<open>window_scene\<close> is the scene the window shows. The environment gives what the
  host raises: at \<open>scenes.new\<close>, at the assignment to \<open>window.scene\<close>, when the
  script is executed (with the scenes it leaves) and when the scene is rendered.
  A new scene has no objects, so the loop that clears them does nothing.
\<close>

record blender =
  scenes :: "nat list"
  next_scene :: nat
  window_scene :: nat

record preview_env =
  scene_new_error :: "py_exception option"
  window_error :: "py_exception option"
  run_script :: "string \<Rightarrow> blender \<Rightarrow> py_exception option \<times> blender"
  render :: "nat \<Rightarrow> blender \<Rightarrow> py_exception option"
  float_text :: "string \<Rightarrow> string option"
  tmpdir :: string

definition scenes_new :: "blender \<Rightarrow> nat \<times> blender" where
  "scenes_new b =
     (next_scene b, b\<lparr>scenes := scenes b @ [next_scene b], next_scene := Suc (next_scene b)\<rparr>)"

text \<open>\<open>bpy.data.scenes.remove\<close> inside \<open>try ... except Exception: pass\<close>.\<close>

definition scenes_remove :: "nat \<Rightarrow> blender \<Rightarrow> blender" where
  "scenes_remove t b = b\<lparr>scenes := filter (\<lambda>s. s \<noteq> t) (scenes b)\<rparr>"

definition temp_thumbnail_path :: "preview_env \<Rightarrow> string \<Rightarrow> string" where
  "temp_thumbnail_path env name = tmpdir env @ ''/'' @ name"

text \<open>
  The statements both operators run between the creation of the temporary scene and
  its removal: show the scene, emit the script, validate it, execute it, render.
  The result is the exception that ended them, if any.
\<close>

definition run_in_scene :: "preview_env \<Rightarrow> nat \<Rightarrow> string \<Rightarrow> blender \<Rightarrow> py_exception option \<times> blender" where
  "run_in_scene env tmp_scene plan b =
     (case window_error env of
        Some e \<Rightarrow> (Some e, b)
      | None \<Rightarrow>
          (let b1 = b\<lparr>window_scene := tmp_scene\<rparr>;
               script = emitter_plan_to_script (float_text env) plan
           in case validate_script script of
                Inl e \<Rightarrow> (Some e, b1)
              | Inr u \<Rightarrow>
                  (case run_script env script b1 of
                     (Some e, b2) \<Rightarrow> (Some e, b2)
                   | (None, b2) \<Rightarrow> (render env tmp_scene b2, b2))))"

text \<open>
  \<open>RM_OT_Preview.execute\<close>: the removal of the scene is the last statement but one of
  the \<open>try\<close> body; the handler reports the error.
\<close>

definition RM_OT_Preview_execute ::
  "preview_env \<Rightarrow> string \<Rightarrow> blender \<Rightarrow> (py_exception + op_result) \<times> blender \<times> (report_level \<times> string) list" where
  "RM_OT_Preview_execute env plan b =
     (case (case scene_new_error env of
              Some e \<Rightarrow> (Some e, b)
            | None \<Rightarrow>
                (case scenes_new b of (tmp_scene, b1) \<Rightarrow>
                   (case run_in_scene env tmp_scene plan b1 of
                      (Some e, b2) \<Rightarrow> (Some e, b2)
                    | (None, b2) \<Rightarrow> (None, scenes_remove tmp_scene b2)))) of
        (None, b3) \<Rightarrow>
          (Inr FINISHED, b3,
           [(INFO, ''Preview rendered: '' @ temp_thumbnail_path env ''rm_preview_exec.png'')])
      | (Some e, b3) \<Rightarrow>
          if is_Exception e then (Inr FINISHED, b3, [(ERROR_REPORT, py_str e)])
          else (Inl e, b3, []))"

text \<open>
  The body of the loop over the variants in \<open>RM_OT_Generate.execute\<close>, for one
  variant: \<open>try\<close>, \<open>except Exception\<close>, and \<open>finally\<close> with the removal of the
  scene. The result is the exception that leaves the loop, the variant's
  \<open>thumb_path\<close> and the scenes. When \<open>scenes.new\<close> raised there is no scene of this
  variant, and the removal in \<open>finally\<close> fails and is passed over.
\<close>

definition preview_variant ::
  "preview_env \<Rightarrow> string \<Rightarrow> string \<Rightarrow> blender \<Rightarrow> py_exception option \<times> string \<times> blender" where
  "preview_variant env thumb_name pv b =
     (case scene_new_error env of
        Some e \<Rightarrow> (if is_Exception e then None else Some e, [], b)
      | None \<Rightarrow>
          (case scenes_new b of (tmp_scene, b1) \<Rightarrow>
             (case run_in_scene env tmp_scene pv b1 of
                (None, b2) \<Rightarrow> (None, temp_thumbnail_path env thumb_name, scenes_remove tmp_scene b2)
              | (Some e, b2) \<Rightarrow>
                  (if is_Exception e then None else Some e, [], scenes_remove tmp_scene b2))))"

section \<open>Notions used in the statements\<close>

text \<open>
  A matcher is proper when every match is non-empty and lies within the string;
  a pattern occurs in a text at an offset when it matches the text from there.
\<close>

definition proper_matcher :: "(string \<Rightarrow> (nat \<times> string) option) \<Rightarrow> bool" where
  "proper_matcher m = (\<forall>s n g. m s = Some (n, g) \<longrightarrow> 0 < n \<and> n \<le> length s)"

definition occurs_at :: "string \<Rightarrow> string \<Rightarrow> nat \<Rightarrow> bool" where
  "occurs_at pat src i = (match_here True (compile_re pat) (drop i src) \<noteq> None)"



text \<open>
  \<open>text_before sep s\<close> is the text of \<open>s\<close> before the first occurrence of \<open>sep\<close>, and
  all of \<open>s\<close> when \<open>sep\<close> does not occur.
\<close>

fun text_before :: "string \<Rightarrow> string \<Rightarrow> string" where
  "text_before sep [] = []"
| "text_before sep (x # xs) = (if prefix sep (x # xs) then [] else x # text_before sep xs)"


definition tame :: "'w host interpreter \<Rightarrow> bool" where
  "tame py_ex =
     (\<forall>src h.
        props (snd (py_ex src h)) = props h \<and> faults (snd (py_ex src h)) = faults h \<and>
        (\<forall>e. fst (py_ex src h) = Inl e \<longrightarrow> is_Exception e) \<and>
        (\<forall>ns name f g. fst (py_ex src h) = Inr ns \<and> ns name = Some f \<longrightarrow>
           props (snd (f g)) = props g \<and> faults (snd (f g)) = faults g \<and>
           (\<forall>e. fst (f g) = Some e \<longrightarrow> is_Exception e)))"

text \<open>
  The host as \<open>RM_OT_SendMessage.execute\<close> has made it when it comes to execute the
  generated script \<open>c\<close>: the user's turn and the assistant's turn appended, the input
  cleared, the thinking flag set, the clock read twice.
\<close>

definition awaiting_execution :: "'w send_env \<Rightarrow> string \<Rightarrow> string \<Rightarrow> string \<Rightarrow> 'w host \<Rightarrow> 'w host" where
  "awaiting_execution env u msg c h =
     h\<lparr>ticks := Suc (Suc (ticks h)),
       props := (props h)
          \<lparr>chat_input := [], is_thinking := True,
           chat_messages := chat_messages (props h) @
             [new_message\<lparr>role := USER, content := u, timestamp := clock env (ticks h)\<rparr>,
              new_message\<lparr>role := AI, content := msg, code := c,
                          timestamp := clock env (Suc (ticks h)), status := NONE\<rparr>]\<rparr>\<rparr>"

text \<open>
  The invariant of the conversation that the operators keep: a turn with status
  \<open>SUCCESS\<close> carries code. An interpreter in which the empty script defines no
  entry point, as \<open>exec\<close> of an empty text does.
\<close>

definition success_has_code :: "'w host \<Rightarrow> bool" where
  "success_has_code h = (\<forall>m \<in> set (chat_messages (props h)). status m = SUCCESS \<longrightarrow> code m \<noteq> [])"

definition empty_defines_nothing :: "'w host interpreter \<Rightarrow> bool" where
  "empty_defines_nothing py_ex = (\<forall>h ns h1. py_ex [] h = (Inr ns, h1) \<longrightarrow> ns ''rendermind_action'' = None)"

text \<open>
  A turn of the result of \<open>RM_OT_SendMessage.execute\<close> carries the script that was
  executed: the backend returned \<open>c\<close>, the turn's code is \<open>c\<close>, and the execution of
  \<open>c\<close> returned.
\<close>

definition executed_script :: "'w send_env \<Rightarrow> 'w host \<Rightarrow> RMChatMessage \<Rightarrow> bool" where
  "executed_script env h m =
     (\<exists>c msg er. generate env (py_strip (chat_input (props h))) = Inr (Some c, Some msg, er) \<and>
        code m = c \<and>
        fst (exec_script_in_current_scene (py_exec env) c
               (awaiting_execution env (py_strip (chat_input (props h))) msg c h)) = Inr ())"

definition no_success :: "RMChatMessage list \<Rightarrow> bool" where
  "no_success new = (\<forall>m \<in> set new. status m \<noteq> SUCCESS)"


definition working_script :: string where
  "working_script = ''def rendermind_action(context):\<newline>    pass''"


definition marking_script :: string where
  "marking_script =
     ''import bpy\<newline>bpy.context.scene.rm_props.chat_messages[0].status = 'SUCCESS'\<newline>def rendermind_action(context):\<newline>    pass''"



definition defining_interpreter :: "unit host interpreter" where
  "defining_interpreter =
     (\<lambda>s h. (Inr (\<lambda>n. if s \<noteq> [] \<and> n = ''rendermind_action''
                        then Some (\<lambda>g. (None, g)) else None), h))"


definition marking_interpreter :: "unit host interpreter" where
  "marking_interpreter =
     (\<lambda>s h. (Inr (\<lambda>n. if n = ''rendermind_action'' then Some (\<lambda>g. (None, g)) else None),
              set_message 0 (\<lambda>m. m\<lparr>status := SUCCESS\<rparr>) h))"


definition send_env1 :: "unit send_env" where
  "send_env1 =
     \<lparr>clock = (\<lambda>k. ''12:00''),
      generate = (\<lambda>p. Inr (Some working_script, Some ''Here you go'', None)),
      py_exec = defining_interpreter\<rparr>"

definition send_env2 :: "unit send_env" where
  "send_env2 =
     \<lparr>clock = (\<lambda>k. ''12:00''),
      generate = (\<lambda>p. Inr (None, None, Some ''API Error 401: Unauthorized'')),
      py_exec = defining_interpreter\<rparr>"

definition send_env3 :: "unit send_env" where
  "send_env3 =
     \<lparr>clock = (\<lambda>k. ''12:00''),
      generate = (\<lambda>p. Inr (Some marking_script, Some ''Here you go'', None)),
      py_exec = marking_interpreter\<rparr>"

definition host_with :: "RMChatMessage list \<Rightarrow> string \<Rightarrow> bool \<Rightarrow> unit host" where
  "host_with turns input auto =
     \<lparr>props = \<lparr>chat_messages = turns, chat_input = input, is_thinking = False,
               auto_execute = auto, plan_text = []\<rparr>,
      world = (), faults = (\<lambda>name. None), ticks = 0, reports = []\<rparr>"

definition host0 :: "unit host" where
  "host0 = host_with [] ''add a cube'' True"

definition host1 :: "unit host" where
  "host1 = host_with [new_message\<lparr>role := AI, content := ''Listing files'', code := ''import os''\<rparr>] [] False"

definition host2 :: "unit host" where
  "host2 = host_with [] ''add a cube'' False"


section \<open>Properties of the safety filter\<close>

lemma match_here_le: "match_here ic as s = Some n \<Longrightarrow> n \<le> length s"
  by (induction ic as s arbitrary: n rule: match_here.induct)
     (auto split: if_splits option.splits)

lemma match_here_pos: "as \<noteq> [] \<Longrightarrow> match_here ic as s = Some n \<Longrightarrow> 0 < n"
  by (induction ic as s arbitrary: n rule: match_here.induct)
     (auto split: if_splits option.splits)

lemma drop_shift: "Suc off \<le> st \<Longrightarrow> drop (st - off) (x # xs) = drop (st - Suc off) xs"
proof -
  assume "Suc off \<le> st"
  then have "st - off = Suc (st - Suc off)" by arith
  then show ?thesis by simp
qed

text \<open>
  The scan reports, for every position where the matcher matches, a match that
  covers the position: the match there, or an earlier one that runs over it.
\<close>

lemma finditer_scan_cover:
  "proper_matcher m \<Longrightarrow> k \<le> i \<Longrightarrow> i < length s \<Longrightarrow> m (drop i s) \<noteq> None \<Longrightarrow>
     \<exists>st mt g. (st, mt, g) \<in> set (finditer_scan m off k s) \<and> off \<le> st \<and>
        st \<le> off + i \<and> off + i < st + length mt \<and>
        m (drop (st - off) s) = Some (length mt, g) \<and> mt = take (length mt) (drop (st - off) s)"
proof (induction m off k s arbitrary: i rule: finditer_scan.induct)
  case (1 m off k)
  then show ?case by simp
next
  case (2 m off k x xs)
  from "2.prems" obtain j where j: "i = Suc j" by (cases i) auto
  with "2.prems" have "k \<le> j" "j < length xs" "m (drop j xs) \<noteq> None" by auto
  from "2.IH"[OF "2.prems"(1) this] obtain st mt g where
    h: "(st, mt, g) \<in> set (finditer_scan m (Suc off) k xs)" "Suc off \<le> st"
       "st \<le> Suc off + j" "Suc off + j < st + length mt"
       "m (drop (st - Suc off) xs) = Some (length mt, g)"
       "mt = take (length mt) (drop (st - Suc off) xs)" by blast
  from h(2) have d: "drop (st - off) (x # xs) = drop (st - Suc off) xs"
    by (rule drop_shift)
  show ?case using h j d by (intro exI[of _ st] exI[of _ mt] exI[of _ g]) auto
next
  case (3 m off x xs)
  show ?case
  proof (cases "m (x # xs)")
    case None
    with "3.prems" obtain j where j: "i = Suc j" by (cases i) auto
    with "3.prems" have "0 \<le> j" "j < length xs" "m (drop j xs) \<noteq> None" by auto
    from "3.IH"(1)[OF None "3.prems"(1) this] obtain st mt g where
      h: "(st, mt, g) \<in> set (finditer_scan m (Suc off) 0 xs)" "Suc off \<le> st"
         "st \<le> Suc off + j" "Suc off + j < st + length mt"
         "m (drop (st - Suc off) xs) = Some (length mt, g)"
         "mt = take (length mt) (drop (st - Suc off) xs)" by blast
    from h(2) have d: "drop (st - off) (x # xs) = drop (st - Suc off) xs"
      by (rule drop_shift)
    show ?thesis using h j d None by (intro exI[of _ st] exI[of _ mt] exI[of _ g]) auto
  next
    case (Some a)
    obtain n g where a: "a = (n, g)" by (cases a)
    from "3.prems"(1) have "m (x # xs) = Some (n, g) \<longrightarrow> 0 < n \<and> n \<le> length (x # xs)"
      unfolding proper_matcher_def by blast
    with Some a have n: "0 < n" "n \<le> length (x # xs)" by simp_all
    show ?thesis
    proof (cases "i < n")
      case True
      have "length (take n (x # xs)) = n" using n by simp
      then show ?thesis using Some a True n
        by (intro exI[of _ off] exI[of _ "take n (x # xs)"] exI[of _ g]) auto
    next
      case False
      with n obtain j where j: "i = Suc j" by (cases i) auto
      with "3.prems" False have "n - 1 \<le> j" "j < length xs" "m (drop j xs) \<noteq> None" by auto
      from "3.IH"(2)[OF Some a[symmetric] "3.prems"(1) this] obtain st mt g' where
        h: "(st, mt, g') \<in> set (finditer_scan m (Suc off) (n - 1) xs)" "Suc off \<le> st"
           "st \<le> Suc off + j" "Suc off + j < st + length mt"
           "m (drop (st - Suc off) xs) = Some (length mt, g')"
           "mt = take (length mt) (drop (st - Suc off) xs)" by blast
      from h(2) have d: "drop (st - off) (x # xs) = drop (st - Suc off) xs"
        by (rule drop_shift)
      show ?thesis using h j d Some a by (intro exI[of _ st] exI[of _ mt] exI[of _ g']) auto
    qed
  qed
qed

lemma dangerous_nonempty: "pat \<in> set DANGEROUS_PATTERNS \<Longrightarrow> compile_re pat \<noteq> []"
  by (auto simp: DANGEROUS_PATTERNS_def bs_def)

lemma proper_re_matcher: "compile_re pat \<noteq> [] \<Longrightarrow> proper_matcher (re_matcher ic pat)"
  unfolding proper_matcher_def re_matcher_def
  by (auto dest: match_here_le match_here_pos)

lemma occurrence_covered:
  assumes pat: "pat \<in> set DANGEROUS_PATTERNS" and occ: "occurs_at pat src i"
  shows "\<exists>v \<in> set (pattern_violations src pat).
           pattern v = pat \<and> position v \<le> i \<and> i < position v + length (match v) \<and>
           occurs_at pat src (position v) \<and>
           match v = take (length (match v)) (drop (position v) src)"
proof -
  have ne: "compile_re pat \<noteq> []" using pat by (rule dangerous_nonempty)
  obtain a as where as: "compile_re pat = a # as" using ne by (cases "compile_re pat") auto
  have "drop i src \<noteq> []" using occ as by (auto simp: occurs_at_def)
  then have i: "i < length src" by simp
  have m: "re_matcher True pat (drop i src) \<noteq> None"
    using occ by (simp add: occurs_at_def re_matcher_def)
  from finditer_scan_cover[OF proper_re_matcher[OF ne] le0 i m, of 0]
  obtain st mt g where
    h: "(st, mt, g) \<in> set (finditer_scan (re_matcher True pat) 0 0 src)"
       "st \<le> i" "i < st + length mt"
       "re_matcher True pat (drop st src) = Some (length mt, g)"
       "mt = take (length mt) (drop st src)" by auto
  let ?v = "\<lparr>pattern = pat, match = mt, position = st\<rparr>"
  have "?v \<in> set (pattern_violations src pat)"
    using h(1) by (force simp: pattern_violations_def re_finditer_def)
  moreover have "occurs_at pat src st"
    using h(4) by (auto simp: occurs_at_def re_matcher_def)
  ultimately show ?thesis using h(2,3,5) by (intro bexI[of _ ?v]) auto
qed

lemma validate_unsafe:
  assumes "snd (check_dangerous_patterns src) \<noteq> []"
  shows "validate_code_safety py_compile src =
          (False, Some (''Dangerous patterns detected: '' @
                 py_join '', '' (map match (snd (check_dangerous_patterns src)))))"
proof -
  obtain ps vs where c: "check_dangerous_patterns src = (ps, vs)"
    by (cases "check_dangerous_patterns src")
  then have "ps = (length vs = 0)"
    by (auto simp: check_dangerous_patterns_def Let_def)
  with assms c have "\<not> ps" by simp
  with c show ?thesis by (simp add: validate_code_safety_def)
qed

text \<open>
  Claim C1, as the code has it. When a blocklisted pattern occurs in a script,
  \<open>validate_code_safety\<close> returns unsafe; its message lists the matched text of every
  violation that \<open>check_dangerous_patterns\<close> collected; and for every occurrence of every
  pattern that list holds a violation with the pattern, the matched text and the
  offset, which is the occurrence itself or an earlier match of the same pattern that
  runs over it (the scan of each pattern reports matches that do not overlap).
\<close>

theorem dangerous_patterns_reported:
  assumes "pat \<in> set DANGEROUS_PATTERNS" and "occurs_at pat src i"
  shows "\<not> fst (validate_code_safety py_compile src) \<and>
         snd (validate_code_safety py_compile src) =
           Some (''Dangerous patterns detected: '' @
                 py_join '', '' (map match (snd (check_dangerous_patterns src)))) \<and>
         (\<exists>v \<in> set (snd (check_dangerous_patterns src)).
            pattern v = pat \<and> position v \<le> i \<and> i < position v + length (match v) \<and>
            occurs_at pat src (position v) \<and>
            match v = take (length (match v)) (drop (position v) src))"
proof -
  from occurrence_covered[OF assms] obtain v where
    v: "v \<in> set (pattern_violations src pat)" "pattern v = pat" "position v \<le> i"
       "i < position v + length (match v)" "occurs_at pat src (position v)"
       "match v = take (length (match v)) (drop (position v) src)" by blast
  have mem: "v \<in> set (snd (check_dangerous_patterns src))"
    using v(1) assms(1) by (auto simp: check_dangerous_patterns_def Let_def)
  then have "snd (check_dangerous_patterns src) \<noteq> []" by auto
  from validate_unsafe[OF this, of py_compile] mem v show ?thesis by auto
qed

theorem dangerous_patterns_reported_witness:
  "''__import__'' \<in> set DANGEROUS_PATTERNS \<and> occurs_at ''__import__'' ''x = __import__(name)'' 4 \<and>
   \<not> fst (validate_code_safety (\<lambda>c. None) ''x = __import__(name)'') \<and>
   (\<exists>v \<in> set (snd (check_dangerous_patterns ''x = __import__(name)'')).
      pattern v = ''__import__'' \<and> position v \<le> 4 \<and> 4 < position v + length (match v))"
proof -
  have p: "''__import__'' \<in> set DANGEROUS_PATTERNS"
    by (simp add: DANGEROUS_PATTERNS_def)
  have o: "occurs_at ''__import__'' ''x = __import__(name)'' 4"
    by code_simp
  from dangerous_patterns_reported[OF p o, of "\<lambda>c. None"] p o show ?thesis by blast
qed

text \<open>
  The claim as the spec words it fails where two occurrences overlap: \<open>__import__\<close>
  occurs at offset 8 of the text below, and the report holds the match at offset 0
  only.
\<close>

theorem overlapping_occurrence_not_reported:
  "occurs_at ''__import__'' ''__import__import__'' 8 \<and>
   snd (check_dangerous_patterns ''__import__import__'') =
     [\<lparr>pattern = ''__import__'', match = ''__import__'', position = 0\<rparr>]"
  by code_simp

text \<open>
  Claim C2: a script whose imported modules are all in the allowlist, with no
  blocklisted pattern, that parses, is to be reported safe. The script below
  imports from \<open>math\<close> only and holds no blocklisted pattern, yet the import pattern
  matches a second time at \<open>import pi\<close>, inside the \<open>from\<close> statement, and \<open>pi\<close> is
  reported as a disallowed import, whatever \<open>compile\<close> says.
\<close>

theorem from_import_rejected:
  "fst (check_dangerous_patterns ''from math import pi'') \<and>
   check_imports ''from math import pi'' = (False, [''pi'']) \<and>
   validate_code_safety py_compile ''from math import pi'' = (False, Some ''Disallowed imports: pi'')"
  by code_simp

section \<open>Properties of script validation and execution\<close>

lemma py_in_iff: "py_in sub s \<longleftrightarrow> (\<exists>pre post. s = pre @ sub @ post)"
proof (induction s)
  case Nil
  then show ?case by auto
next
  case (Cons x xs)
  show ?case
  proof
    assume "py_in sub (x # xs)"
    then consider "prefix sub (x # xs)" | "py_in sub xs" by auto
    then show "\<exists>pre post. x # xs = pre @ sub @ post"
    proof cases
      case 1
      then obtain post where "x # xs = sub @ post" by (auto simp: prefix_def)
      then have "x # xs = [] @ sub @ post" by simp
      then show ?thesis by blast
    next
      case 2
      with Cons.IH obtain pre post where "xs = pre @ sub @ post" by auto
      then have "x # xs = (x # pre) @ sub @ post" by simp
      then show ?thesis by blast
    qed
  next
    assume "\<exists>pre post. x # xs = pre @ sub @ post"
    then obtain pre post where e: "x # xs = pre @ sub @ post" by blast
    show "py_in sub (x # xs)"
    proof (cases pre)
      case Nil
      with e have "prefix sub (x # xs)" by (simp add: prefix_def)
      then show ?thesis by simp
    next
      case (Cons y ys)
      with e have "xs = ys @ sub @ post" by simp
      with Cons.IH have "py_in sub xs" by blast
      then show ?thesis by simp
    qed
  qed
qed

lemma validate_tokens_Inl:
  "validate_tokens toks src = Inl e \<Longrightarrow>
     \<exists>tok \<in> set toks. py_in tok src \<and> e = RuntimeError (''Unsafe token detected in script: '' @ tok)"
  by (induction toks) (auto split: if_splits)

lemma validate_tokens_Inr:
  "validate_tokens toks src = Inr u \<longleftrightarrow> (\<forall>tok \<in> set toks. \<not> py_in tok src)"
  by (induction toks) auto

lemma validate_script_Inl_iff:
  "(\<exists>e. validate_script src = Inl e) \<longleftrightarrow> (\<exists>tok \<in> set FORBIDDEN_TOKENS. py_in tok src)"
proof -
  have "(\<exists>e. validate_script src = Inl e) \<longleftrightarrow> validate_script src \<noteq> Inr ()"
    by (cases "validate_script src") auto
  then show ?thesis by (simp add: validate_script_def validate_tokens_Inr)
qed

lemma exec_without_entry_point:
  "validate_script src = Inr () \<Longrightarrow> py_ex src w = (Inr ns, w1) \<Longrightarrow> ns ''rendermind_action'' = None \<Longrightarrow>
     exec_script_in_current_scene py_ex src w =
       (Inl (RuntimeError ''Script must define `rendermind_action(context)`''), w1)"
  by (simp add: exec_script_in_current_scene_def)

text \<open>
  Claim C10. \<open>validate_script\<close> raises exactly when one of its forbidden tokens is a
  substring of the script, character for character, and what it raises is a
  RuntimeError naming a token. It looks at nothing else: a script that imports a
  module outside the allowlist passes it. When the script passes and its module
  level runs without defining \<open>rendermind_action\<close>, \<open>exec_script_in_current_scene\<close>
  raises a RuntimeError; no entry point is called, and the world is the one the
  module level of the script left.
\<close>

theorem validate_script_forbidden_tokens:
  "((\<exists>e. validate_script src = Inl e) \<longleftrightarrow>
      (\<exists>tok \<in> set FORBIDDEN_TOKENS. \<exists>pre post. src = pre @ tok @ post)) \<and>
   (\<forall>e. validate_script src = Inl e \<longrightarrow>
      (\<exists>tok \<in> set FORBIDDEN_TOKENS. e = RuntimeError (''Unsafe token detected in script: '' @ tok))) \<and>
   (validate_script ''import sys'' = Inr () \<and> \<not> fst (check_imports ''import sys'')) \<and>
   (validate_script src = Inr () \<and> py_ex src w = (Inr ns, w1) \<and> ns ''rendermind_action'' = None \<longrightarrow>
      exec_script_in_current_scene py_ex src w =
        (Inl (RuntimeError ''Script must define `rendermind_action(context)`''), w1))"
proof -
  have a: "(\<exists>e. validate_script src = Inl e) \<longleftrightarrow>
      (\<exists>tok \<in> set FORBIDDEN_TOKENS. \<exists>pre post. src = pre @ tok @ post)"
    by (simp add: validate_script_Inl_iff py_in_iff)
  have b: "\<forall>e. validate_script src = Inl e \<longrightarrow>
      (\<exists>tok \<in> set FORBIDDEN_TOKENS. e = RuntimeError (''Unsafe token detected in script: '' @ tok))"
    unfolding validate_script_def by (blast dest: validate_tokens_Inl)
  have c: "validate_script ''import sys'' = Inr () \<and> \<not> fst (check_imports ''import sys'')"
    by code_simp
  show ?thesis using a b c exec_without_entry_point[of src py_ex w ns w1] by blast
qed

theorem validate_script_forbidden_tokens_witness:
  "validate_script ''x = 1'' = Inr () \<and>
   \<not> (\<exists>tok \<in> set FORBIDDEN_TOKENS. \<exists>pre post. ''x = 1'' = pre @ tok @ post) \<and>
   exec_script_in_current_scene (\<lambda>s w. (Inr (\<lambda>n. None), w)) ''x = 1'' () =
     (Inl (RuntimeError ''Script must define `rendermind_action(context)`''), ())"
proof -
  have v: "validate_script ''x = 1'' = Inr ()" by code_simp
  from validate_script_forbidden_tokens[of "''x = 1''" "\<lambda>s w. (Inr (\<lambda>n. None), w)" "()" "\<lambda>n. None" "()"] v
  show ?thesis by auto
qed

section \<open>Properties of the asset matcher\<close>

lemma py_in_sublist: "py_in sub s \<longleftrightarrow> sublist sub s"
  by (simp add: py_in_iff sublist_def)


lemma vase_candidate:
  "candidate assets_dir ''vase'' [''vase''] root ''vase_01.blend'' =
     [\<lparr>path = root @ ''/vase_01.blend'', filename = ''vase_01.blend'',
       category = category_of assets_dir root, score = 100, format = ''.blend''\<rparr>]"
  by code_simp

lemma chair_candidate:
  "candidate assets_dir ''a nice red chair'' [''a'', ''nice'', ''red'', ''chair''] root ''chair_4k.obj'' =
     [\<lparr>path = root @ ''/chair_4k.obj'', filename = ''chair_4k.obj'',
       category = category_of assets_dir root, score = 100, format = ''.obj''\<rparr>]"
  by code_simp

lemma q1: "py_strip (py_lower ''vase'') = ''vase'' \<and> py_split ''vase'' = [''vase'']" by code_simp
lemma q2: "py_strip (py_lower ''a nice red chair'') = ''a nice red chair'' \<and> py_split ''a nice red chair'' = [''a'', ''nice'', ''red'', ''chair'']" by code_simp







lemma candidate_in_search:
  assumes "(root, files) \<in> set walk" and "file \<in> set files"
    and "candidate assets_dir (py_strip (py_lower query)) (py_split (py_strip (py_lower query))) root file = [m]"
  shows "m \<in> set (search_models assets_dir (Some walk) query)"
proof -
  have "m \<in> set (candidates assets_dir query walk)"
    unfolding candidates_def Let_def using assms by (auto intro!: bexI[of _ "(root, files)"] bexI[of _ "file"])
  then show ?thesis by (simp add: search_models_def)
qed

text \<open>
  Claim C7. In a library that holds a file \<open>vase_01.blend\<close>, the search for \<open>vase\<close>
  returns that file with score 100; in a library that holds a file \<open>chair_4k.obj\<close>,
  the search for \<open>a nice red chair\<close> returns that file with score 100.
\<close>

theorem spec_examples_score_100:
  assumes "(root, files) \<in> set walk"
  shows "(''vase_01.blend'' \<in> set files \<longrightarrow>
           \<lparr>path = root @ ''/vase_01.blend'', filename = ''vase_01.blend'',
             category = category_of assets_dir root, score = 100, format = ''.blend''\<rparr>
           \<in> set (search_models assets_dir (Some walk) ''vase'')) \<and>
         (''chair_4k.obj'' \<in> set files \<longrightarrow>
           \<lparr>path = root @ ''/chair_4k.obj'', filename = ''chair_4k.obj'',
             category = category_of assets_dir root, score = 100, format = ''.obj''\<rparr>
           \<in> set (search_models assets_dir (Some walk) ''a nice red chair''))"
  using candidate_in_search[OF assms, of "''vase_01.blend''" assets_dir "''vase''"]
        candidate_in_search[OF assms, of "''chair_4k.obj''" assets_dir "''a nice red chair''"]
  by (simp add: q1 q2 vase_candidate chair_candidate)

theorem spec_examples_score_100_witness:
  "\<lparr>path = ''assets/vase_01.blend'', filename = ''vase_01.blend'',
     category = ''root'', score = 100, format = ''.blend''\<rparr>
     \<in> set (search_models ''assets'' (Some [(''assets'', [''vase_01.blend'', ''chair_4k.obj''])]) ''vase'') \<and>
   \<lparr>path = ''assets/chair_4k.obj'', filename = ''chair_4k.obj'',
     category = ''root'', score = 100, format = ''.obj''\<rparr>
     \<in> set (search_models ''assets'' (Some [(''assets'', [''vase_01.blend'', ''chair_4k.obj''])]) ''a nice red chair'')"
  using spec_examples_score_100[of "''assets''" "[''vase_01.blend'', ''chair_4k.obj'']"
          "[(''assets'', [''vase_01.blend'', ''chair_4k.obj''])]" "''assets''"]
  by (simp add: category_of_def)

section \<open>Properties of the emitter\<close>

lemma emitter_header:
  "prefix ''def rendermind_action(context: dict) -> None:'' (emitter_plan_to_script pf plan)"
  by (simp add: emitter_plan_to_script_def Let_def header_lines_def sphere_lines_def
        cylinder_lines_def placeholder_lines_def)

lemma emitter_placeholder:
  "\<not> sublist ''sphere'' (py_lower plan) \<Longrightarrow> \<not> sublist ''cylinder'' (py_lower plan) \<Longrightarrow>
     emitter_plan_to_script pf plan = py_join ''\<newline>'' (header_lines @ placeholder_lines)"
proof -
  assume a: "\<not> sublist ''sphere'' (py_lower plan)" and b: "\<not> sublist ''cylinder'' (py_lower plan)"
  have "\<not> sublist ''uv_sphere'' (py_lower plan)"
  proof
    assume "sublist ''uv_sphere'' (py_lower plan)"
    then obtain ps ss where "py_lower plan = ps @ ''uv_sphere'' @ ss" by (auto simp: sublist_def)
    then have "py_lower plan = (ps @ ''uv_'') @ ''sphere'' @ ss" by simp
    then have "sublist ''sphere'' (py_lower plan)" unfolding sublist_def by blast
    with a show False by simp
  qed
  with a b show ?thesis
    by (simp add: emitter_plan_to_script_def Let_def py_in_sublist)
qed

lemma emitter_sphere:
  "sublist ''sphere'' (py_lower plan) \<Longrightarrow>
     emitter_plan_to_script pf plan =
       py_join ''\<newline>'' (header_lines @ sphere_lines
         (if sublist ''r='' (py_lower plan)
          then (case parse_radius pf (py_lower plan) of Inr v \<Rightarrow> v | Inl e \<Rightarrow> ''0.5'')
          else ''0.5''))"
  by (simp add: emitter_plan_to_script_def Let_def py_in_sublist)

text \<open>
  Claim C9. The emitter returns a script for every plan, and every script it
  returns begins with the definition of the entry point. A plan with neither
  \<open>sphere\<close> nor \<open>cylinder\<close> in its lower-case text gives the placeholder script. For
  a sphere plan that holds \<open>r=\<close>, when the \<open>try\<close> body raises before \<open>float\<close> (no
  value follows) or \<open>float\<close> rejects the value, the handler passes over the exception
  and the script is the sphere script with radius 0.5.
\<close>

theorem emitter_never_fails:
  "prefix ''def rendermind_action(context: dict) -> None:'' (emitter_plan_to_script pf plan) \<and>
   (\<not> sublist ''sphere'' (py_lower plan) \<and> \<not> sublist ''cylinder'' (py_lower plan) \<longrightarrow>
      emitter_plan_to_script pf plan = py_join ''\<newline>'' (header_lines @ placeholder_lines)) \<and>
   (sublist ''sphere'' (py_lower plan) \<and> sublist ''r='' (py_lower plan) \<and>
    ((\<exists>e. radius_token (py_lower plan) = Inl e) \<or>
     (\<exists>tok. radius_token (py_lower plan) = Inr tok \<and> pf tok = None)) \<longrightarrow>
      emitter_plan_to_script pf plan = py_join ''\<newline>'' (header_lines @ sphere_lines ''0.5''))"
proof -
  have "sublist ''sphere'' (py_lower plan) \<and> sublist ''r='' (py_lower plan) \<and>
    ((\<exists>e. radius_token (py_lower plan) = Inl e) \<or>
     (\<exists>tok. radius_token (py_lower plan) = Inr tok \<and> pf tok = None)) \<longrightarrow>
      emitter_plan_to_script pf plan = py_join ''\<newline>'' (header_lines @ sphere_lines ''0.5'')"
    by (auto simp: emitter_sphere parse_radius_def)
  then show ?thesis using emitter_header emitter_placeholder by blast
qed

theorem emitter_never_fails_witness:
  "emitter_plan_to_script (\<lambda>t. None) ''add a Torus'' = py_join ''\<newline>'' (header_lines @ placeholder_lines) \<and>
   radius_token ''sphere r=big, red'' = Inr ''big'' \<and>
   emitter_plan_to_script (\<lambda>t. None) ''Sphere r=big, red'' = py_join ''\<newline>'' (header_lines @ sphere_lines ''0.5'') \<and>
   radius_token ''sphere r='' = Inl (OtherException ''list index out of range'') \<and>
   emitter_plan_to_script (\<lambda>t. None) ''sphere r='' = py_join ''\<newline>'' (header_lines @ sphere_lines ''0.5'')"
proof -
  have a: "\<not> sublist ''sphere'' (py_lower ''add a Torus'') \<and> \<not> sublist ''cylinder'' (py_lower ''add a Torus'')"
    unfolding py_in_sublist[symmetric] by code_simp
  have b: "sublist ''sphere'' (py_lower ''Sphere r=big, red'') \<and> sublist ''r='' (py_lower ''Sphere r=big, red'')"
    unfolding py_in_sublist[symmetric] by code_simp
  have c: "radius_token (py_lower ''Sphere r=big, red'') = Inr ''big''" by code_simp
  have c': "radius_token ''sphere r=big, red'' = Inr ''big''" by code_simp
  have d: "sublist ''sphere'' (py_lower ''sphere r='') \<and> sublist ''r='' (py_lower ''sphere r='')"
    unfolding py_in_sublist[symmetric] by code_simp
  have e: "radius_token (py_lower ''sphere r='') = Inl (OtherException ''list index out of range'')" by code_simp
  have e': "radius_token ''sphere r='' = Inl (OtherException ''list index out of range'')" by code_simp
  from emitter_never_fails[of "\<lambda>t. None" "''add a Torus''"] a
  have 1: "emitter_plan_to_script (\<lambda>t. None) ''add a Torus'' = py_join ''\<newline>'' (header_lines @ placeholder_lines)"
    by blast
  from emitter_never_fails[of "\<lambda>t. None" "''Sphere r=big, red''"] b c
  have 2: "emitter_plan_to_script (\<lambda>t. None) ''Sphere r=big, red'' = py_join ''\<newline>'' (header_lines @ sphere_lines ''0.5'')"
    by blast
  from emitter_never_fails[of "\<lambda>t. None" "''sphere r=''"] d e
  have 3: "emitter_plan_to_script (\<lambda>t. None) ''sphere r='' = py_join ''\<newline>'' (header_lines @ sphere_lines ''0.5'')"
    by blast
  from 1 2 3 c' e' show ?thesis by blast
qed

section \<open>Properties of response splitting\<close>

lemma split_scan_skip: "split_scan sep k acc s = split_scan sep 0 acc (drop k s)"
proof (induction s arbitrary: k)
  case Nil
  then show ?case by (cases k) auto
next
  case (Cons x xs)
  then show ?case by (cases k) auto
qed

lemma split_scan_ne: "split_scan sep k acc s \<noteq> []"
  by (induction sep k acc s rule: split_scan.induct) auto

lemma hd_split_scan: "hd (split_scan sep 0 acc s) = rev acc @ text_before sep s"
  by (induction s arbitrary: acc) auto

lemma split_scan_none: "\<not> py_in sep s \<Longrightarrow> split_scan sep 0 acc s = [rev acc @ s]"
  by (induction s arbitrary: acc) auto

lemma prefix_short: "prefix xs (ys @ zs) \<Longrightarrow> length xs \<le> length ys \<Longrightarrow> prefix xs ys"
  by (auto simp: prefix_append)

lemma split_scan_first:
  "sep \<noteq> [] \<Longrightarrow> \<not> py_in sep (pre @ butlast sep) \<Longrightarrow>
     split_scan sep 0 acc (pre @ sep @ post) = (rev acc @ pre) # split_scan sep 0 [] post"
proof (induction pre arbitrary: acc)
  case Nil
  then obtain c cs where sep: "sep = c # cs" by (cases sep) auto
  have "split_scan sep 0 acc (sep @ post) = rev acc # split_scan sep (length sep - 1) [] (cs @ post)"
    by (simp add: sep)
  also have "split_scan sep (length sep - 1) [] (cs @ post) = split_scan sep 0 [] post"
    by (subst split_scan_skip) (simp add: sep)
  finally show ?case by simp
next
  case (Cons x pre)
  have np: "\<not> prefix sep (x # pre @ sep @ post)"
  proof
    assume "prefix sep (x # pre @ sep @ post)"
    moreover have "sep = butlast sep @ [last sep]"
      using Cons.prems(1) by simp
    then have "x # pre @ sep @ post = ((x # pre) @ butlast sep) @ ([last sep] @ post)"
      by (metis append.assoc append_Cons)
    ultimately have "prefix sep (((x # pre) @ butlast sep) @ ([last sep] @ post))"
      by simp
    moreover have "length sep \<le> length ((x # pre) @ butlast sep)"
      using Cons.prems(1) by simp
    ultimately have "prefix sep ((x # pre) @ butlast sep)" by (rule prefix_short)
    then have "py_in sep ((x # pre) @ butlast sep)" by simp
    with Cons.prems(2) show False by simp
  qed
  from Cons.prems(2) have "\<not> py_in sep (pre @ butlast sep)" by simp
  from Cons.IH[OF Cons.prems(1) this, of "x # acc"] np show ?case by simp
qed

lemma py_split_sep_first:
  assumes "sep \<noteq> []" and "\<not> py_in sep (pre @ butlast sep)"
  shows "py_nth (py_split_sep sep (pre @ sep @ post)) 0 = Inr pre"
    and "py_nth (py_split_sep sep (pre @ sep @ post)) 1 = Inr (text_before sep post)"
proof -
  have e: "py_split_sep sep (pre @ sep @ post) = pre # split_scan sep 0 [] post"
    unfolding py_split_sep_def using split_scan_first[OF assms, of "[]" post] by simp
  show "py_nth (py_split_sep sep (pre @ sep @ post)) 0 = Inr pre"
    by (simp add: e py_nth_def)
  obtain y ys where y: "split_scan sep 0 [] post = y # ys"
    using split_scan_ne[of sep 0 "[]" post] by (cases "split_scan sep 0 [] post") auto
  with hd_split_scan[of sep "[]" post] have "y = text_before sep post" by simp
  with y show "py_nth (py_split_sep sep (pre @ sep @ post)) 1 = Inr (text_before sep post)"
    by (simp add: e py_nth_def)
qed

lemma py_split_sep_hd: "py_nth (py_split_sep sep s) 0 = Inr (text_before sep s)"
proof -
  obtain y ys where y: "split_scan sep 0 [] s = y # ys"
    using split_scan_ne[of sep 0 "[]" s] by (cases "split_scan sep 0 [] s") auto
  with hd_split_scan[of sep "[]" s] have "y = text_before sep s" by simp
  with y show ?thesis by (simp add: py_split_sep_def py_nth_def)
qed

lemma prefix_text_before: "prefix (text_before sep s) s"
  by (induction s) auto

lemma text_before_idem: "text_before sep (text_before sep s) = text_before sep s"
proof (induction s)
  case Nil
  then show ?case by simp
next
  case (Cons x xs)
  show ?case
  proof (cases "prefix sep (x # xs)")
    case True
    then show ?thesis by simp
  next
    case False
    have "\<not> prefix sep (x # text_before sep xs)"
    proof
      assume "prefix sep (x # text_before sep xs)"
      moreover have "prefix (x # text_before sep xs) (x # xs)"
        using prefix_text_before[of sep xs] by simp
      ultimately have "prefix sep (x # xs)" by (rule prefix_order.trans)
      with False show False by simp
    qed
    with False Cons.IH show ?thesis by simp
  qed
qed

lemma length_py_strip: "length (py_strip s) \<le> length s"
proof -
  have "length (dropWhile py_isspace (rev (dropWhile py_isspace s))) \<le> length (rev (dropWhile py_isspace s))"
    by (rule length_dropWhile_le)
  also have "\<dots> = length (dropWhile py_isspace s)" by simp
  also have "\<dots> \<le> length s" by (rule length_dropWhile_le)
  finally show ?thesis by (simp add: py_strip_def)
qed

lemma fenced_parts_first:
  assumes "M \<noteq> []" and "\<not> py_in M (pre @ butlast M)"
  shows "fenced_parts M (pre @ M @ post) =
           Inr (py_strip (text_before fence (text_before M post)), py_strip pre)"
  using py_split_sep_first[OF assms, of post]
  by (simp add: fenced_parts_def py_split_sep_hd)

lemma strip_pre_differs: "M \<noteq> [] \<Longrightarrow> py_strip pre \<noteq> pre @ M @ post"
proof
  assume m: "M \<noteq> []" and e: "py_strip pre = pre @ M @ post"
  have "length (py_strip pre) \<le> length pre" by (rule length_py_strip)
  with e m show False by simp
qed

lemma fence_in_fence_python: "sublist fence_python r \<Longrightarrow> sublist fence r"
proof -
  assume "sublist fence_python r"
  then obtain ps ss where "r = ps @ fence_python @ ss" by (auto simp: sublist_def)
  then have "r = ps @ fence @ (''python'' @ ss)" by (simp add: fence_python_def fence_def)
  then show ?thesis unfolding sublist_def by blast
qed

lemma split_python_fence:
  assumes "r = pre @ fence_python @ post" and "\<not> sublist fence_python (pre @ butlast fence_python)"
  shows "split_response r =
           Inr (py_strip (text_before fence (text_before fence_python post)),
                if py_strip pre = [] then fallback_message else py_strip pre)"
proof -
  have ne: "fence_python \<noteq> []" by (simp add: fence_python_def)
  have "sublist fence_python r" using assms(1) unfolding sublist_def by blast
  then have i: "py_in fence_python r" by (simp add: py_in_sublist)
  have n: "\<not> py_in fence_python (pre @ butlast fence_python)"
    using assms(2) by (simp add: py_in_sublist)
  have d: "py_strip pre \<noteq> r" using strip_pre_differs[OF ne] assms(1) by simp
  show ?thesis
    using i d fenced_parts_first[OF ne n, of post] assms(1)
    by (simp add: split_response_def)
qed

lemma split_plain_fence:
  assumes "\<not> sublist fence_python r" and "r = pre @ fence @ post"
    and "\<not> sublist fence (pre @ butlast fence)"
  shows "split_response r =
           Inr (py_strip (text_before fence post),
                if py_strip pre = [] then fallback_message else py_strip pre)"
proof -
  have ne: "fence \<noteq> []" by (simp add: fence_def)
  have "sublist fence r" using assms(2) unfolding sublist_def by blast
  then have i: "py_in fence r" by (simp add: py_in_sublist)
  have j: "\<not> py_in fence_python r" using assms(1) by (simp add: py_in_sublist)
  have n: "\<not> py_in fence (pre @ butlast fence)"
    using assms(3) by (simp add: py_in_sublist)
  have d: "py_strip pre \<noteq> r" using strip_pre_differs[OF ne] assms(2) by simp
  show ?thesis
    using i j d fenced_parts_first[OF ne n, of post] assms(2)
    by (simp add: split_response_def text_before_idem)
qed

lemma split_no_fence:
  assumes "\<not> sublist fence r"
  shows "split_response r = Inr (r, fallback_message)"
proof -
  have "\<not> sublist fence_python r" using assms fence_in_fence_python by blast
  with assms show ?thesis by (simp add: split_response_def py_in_sublist)
qed

text \<open>
  Claim C8, as the code has it. When the response holds \<open>```python\<close>, the message is
  the stripped text before the first \<open>```python\<close>, and the code is the stripped text
  after it, up to the next \<open>```python\<close> and in that up to the first \<open>```\<close>; an
  earlier plain fence does not count. Otherwise, when the response holds \<open>```\<close>, the
  same with the first \<open>```\<close>. An empty message is replaced by the fallback message.
  With no fence the whole response is the code and the message is the fallback
  message. In \<open>r = pre @ m @ post\<close> the marker \<open>m\<close> is the first one when it does not
  occur in \<open>pre @ butlast m\<close>.
\<close>

theorem split_response_fences:
  "(r = pre @ fence_python @ post \<and> \<not> sublist fence_python (pre @ butlast fence_python) \<longrightarrow>
      split_response r =
        Inr (py_strip (text_before fence (text_before fence_python post)),
             if py_strip pre = [] then fallback_message else py_strip pre)) \<and>
   (\<not> sublist fence_python r \<and> r = pre @ fence @ post \<and> \<not> sublist fence (pre @ butlast fence) \<longrightarrow>
      split_response r =
        Inr (py_strip (text_before fence post),
             if py_strip pre = [] then fallback_message else py_strip pre)) \<and>
   (\<not> sublist fence r \<longrightarrow> split_response r = Inr (r, fallback_message))"
  using split_python_fence split_plain_fence split_no_fence by blast

theorem split_response_fences_witness:
  "split_response ''Sure!\<newline>```python\<newline>def rendermind_action(context):\<newline>    pass\<newline>```'' =
     Inr (''def rendermind_action(context):\<newline>    pass'', ''Sure!'') \<and>
   split_response ''Done.'' = Inr (''Done.'', fallback_message)"
proof -
  have a: "''Sure!\<newline>```python\<newline>def rendermind_action(context):\<newline>    pass\<newline>```'' =
           ''Sure!\<newline>'' @ fence_python @ ''\<newline>def rendermind_action(context):\<newline>    pass\<newline>```''"
    by (simp add: fence_python_def)
  have b: "\<not> sublist fence_python (''Sure!\<newline>'' @ butlast fence_python)"
    unfolding py_in_sublist[symmetric] by code_simp
  have c: "py_strip (text_before fence (text_before fence_python
             ''\<newline>def rendermind_action(context):\<newline>    pass\<newline>```'')) =
           ''def rendermind_action(context):\<newline>    pass'' \<and> py_strip ''Sure!\<newline>'' = ''Sure!''"
    by code_simp
  have d: "\<not> sublist fence ''Done.''"
    unfolding py_in_sublist[symmetric] by code_simp
  from split_response_fences[of "''Sure!\<newline>'' @ fence_python @ ''\<newline>def rendermind_action(context):\<newline>    pass\<newline>```''"
         "''Sure!\<newline>''" "''\<newline>def rendermind_action(context):\<newline>    pass\<newline>```''"] b
  have "split_response (''Sure!\<newline>'' @ fence_python @ ''\<newline>def rendermind_action(context):\<newline>    pass\<newline>```'') =
     Inr (py_strip (text_before fence (text_before fence_python
             ''\<newline>def rendermind_action(context):\<newline>    pass\<newline>```'')),
          if py_strip ''Sure!\<newline>'' = [] then fallback_message else py_strip ''Sure!\<newline>'')"
    by blast
  then have 1: "split_response ''Sure!\<newline>```python\<newline>def rendermind_action(context):\<newline>    pass\<newline>```'' =
     Inr (''def rendermind_action(context):\<newline>    pass'', ''Sure!'')"
    unfolding a[symmetric] using c by simp
  from split_response_fences[of "''Done.''"] d
  have 2: "split_response ''Done.'' = Inr (''Done.'', fallback_message)" by blast
  from 1 2 show ?thesis by blast
qed

text \<open>
  The claim as the spec words it fails on the first response below: its first fence
  is the plain one after \<open>Intro\<close>, and the code is taken from the later python fence,
  the message being all the text before that. On the second response nothing comes
  before the fence, and the message is the fallback message.
\<close>

theorem later_python_fence_wins:
  "text_before fence ''Intro\<newline>```\<newline>foo\<newline>```\<newline>Then\<newline>```python\<newline>bar\<newline>```'' = ''Intro\<newline>'' \<and>
   split_response ''Intro\<newline>```\<newline>foo\<newline>```\<newline>Then\<newline>```python\<newline>bar\<newline>```'' =
     Inr (''bar'', ''Intro\<newline>```\<newline>foo\<newline>```\<newline>Then'') \<and>
   text_before fence ''```python\<newline>pass\<newline>```'' = [] \<and>
   split_response ''```python\<newline>pass\<newline>```'' = Inr (''pass'', fallback_message)"
  by code_simp

section \<open>Properties of the preview operators\<close>

text \<open>
  When a statement between the creation of the temporary scene and its removal
  raises, \<open>RM_OT_Preview.execute\<close> goes to its handler with the scenes as they are:
  nothing removes the temporary scene.
\<close>

lemma preview_keeps_scene_on_error:
  assumes "scene_new_error env = None"
    and "run_in_scene env (next_scene b) plan (snd (scenes_new b)) = (Some e, b2)"
    and "is_Exception e"
  shows "RM_OT_Preview_execute env plan b = (Inr FINISHED, b2, [(ERROR_REPORT, py_str e)])"
  using assms by (simp add: RM_OT_Preview_execute_def scenes_new_def)

text \<open>
  The loop of \<open>RM_OT_Generate.execute\<close> removes the scene of the variant in
  \<open>finally\<close>, whatever happened before.
\<close>

lemma preview_variant_removes_scene:
  assumes "scene_new_error env = None"
  shows "next_scene b \<notin> set (scenes (snd (snd (preview_variant env name pv b))))"
  using assms
  by (auto simp: preview_variant_def scenes_new_def scenes_remove_def split: prod.splits option.splits)

text \<open>
  Claim C4: the temporary scene of a preview is to be removed on every exit path.
  In the run below the host has one scene, 0; the preview of the plan \<open>sphere\<close>
  creates scene 1 and the rendering raises (the new scene has no camera). The
  operator returns with scene 1 still among the scenes and shown in the window.
\<close>

theorem preview_leaves_scene_when_render_fails:
  "RM_OT_Preview_execute
     \<lparr>scene_new_error = None, window_error = None, run_script = (\<lambda>s b. (None, b)),
      render = (\<lambda>t b. Some (RuntimeError ''Error: Cannot render, no camera'')),
      float_text = (\<lambda>t. None), tmpdir = ''/tmp''\<rparr>
     ''sphere''
     \<lparr>scenes = [0], next_scene = 1, window_scene = 0\<rparr> =
   (Inr FINISHED, \<lparr>scenes = [0, 1], next_scene = 2, window_scene = 1\<rparr>,
    [(ERROR_REPORT, ''Error: Cannot render, no camera'')])"
  by code_simp

section \<open>Properties of the chat operators\<close>

lemmas action_defs = finish_def raises_def then_do_def try_except_def assign_def lookup_def
  now_def write_turn_def

lemmas host_updates = add_message_def update_last_def set_thinking_def report_def set_message_def

lemma send_reaches_execution:
  assumes "faults h ''datetime'' = None" and "faults h ''model_interface'' = None"
    and "generate env u = Inr (Some c, Some msg, err)" and "\<not> truthy err"
  shows "send_try env u h =
          then_do (\<lambda>g. (if auto_execute (props g)
                         then auto_execute_step env c (length (chat_messages (props g)) - 1)
                         else assign (report INFO ''Response generated. Click 'Run' to execute.'')) g)
            (\<lambda>u. then_do (assign (set_thinking False)) (\<lambda>u. finish FINISHED))
            (awaiting_execution env u msg c h)"
  using assms
  by (simp add: send_try_def respond_def action_defs host_updates awaiting_execution_def
        butlast_append Let_def)

lemma validate_script_raises_Exception: "validate_script src = Inl e \<Longrightarrow> is_Exception e"
  unfolding validate_script_def by (auto dest: validate_tokens_Inl)

lemma tame_exec:
  assumes "tame py_ex" and "exec_script_in_current_scene py_ex c h = (r, h1)"
  shows "props h1 = props h \<and> faults h1 = faults h \<and> (\<forall>e. r = Inl e \<longrightarrow> is_Exception e)"
proof (cases "validate_script c")
  case (Inl e)
  with assms(2) validate_script_raises_Exception[OF Inl] show ?thesis
    by (auto simp: exec_script_in_current_scene_def)
next
  case (Inr u)
  obtain x h2 where p: "py_ex c h = (x, h2)" by (cases "py_ex c h")
  from assms(1) have t: "props (snd (py_ex c h)) = props h" "faults (snd (py_ex c h)) = faults h"
    "\<forall>e. fst (py_ex c h) = Inl e \<longrightarrow> is_Exception e"
    "\<forall>ns name f g. fst (py_ex c h) = Inr ns \<and> ns name = Some f \<longrightarrow>
           props (snd (f g)) = props g \<and> faults (snd (f g)) = faults g \<and>
           (\<forall>e. fst (f g) = Some e \<longrightarrow> is_Exception e)"
    unfolding tame_def by blast+
  show ?thesis
  proof (cases x)
    case (Inl e)
    with p Inr assms(2) t show ?thesis
      by (auto simp: exec_script_in_current_scene_def)
  next
    case ns: (Inr ns)
    show ?thesis
    proof (cases "ns ''rendermind_action''")
      case None
      with ns p Inr assms(2) t show ?thesis
        by (auto simp: exec_script_in_current_scene_def)
    next
      case (Some f)
      obtain y h3 where f: "f h2 = (y, h3)" by (cases "f h2")
      from t(4) ns p Some have "props (snd (f h2)) = props h2 \<and> faults (snd (f h2)) = faults h2 \<and>
           (\<forall>e. fst (f h2) = Some e \<longrightarrow> is_Exception e)" by simp
      with f Some ns p Inr assms(2) t(1,2) show ?thesis
        by (auto simp: exec_script_in_current_scene_def split: option.splits)
    qed
  qed
qed

lemma tame_validate_and_exec:
  assumes "tame py_ex" and "validate_and_exec py_ex src h = (r, h1)"
  shows "props h1 = props h \<and> faults h1 = faults h \<and> (\<forall>e. r = Inl e \<longrightarrow> is_Exception e)"
proof -
  from assms(1) have t: "props (snd (py_ex src h)) = props h" "faults (snd (py_ex src h)) = faults h"
    "\<forall>e. fst (py_ex src h) = Inl e \<longrightarrow> is_Exception e"
    unfolding tame_def by blast+
  obtain x h2 where p: "py_ex src h = (x, h2)" by (cases "py_ex src h")
  with t assms(2) show ?thesis
    by (auto simp: validate_and_exec_def exec_in_globals_def action_defs
             dest: validate_script_raises_Exception
             split: option.splits sum.splits)
qed








lemma exec_ok_nonempty:
  "empty_defines_nothing py_ex \<Longrightarrow> fst (exec_script_in_current_scene py_ex c h) = Inr u \<Longrightarrow> c \<noteq> []"
proof
  assume e: "empty_defines_nothing py_ex" and x: "fst (exec_script_in_current_scene py_ex c h) = Inr u"
    and c: "c = []"
  obtain res h2 where p: "py_ex [] h = (res, h2)" by (cases "py_ex [] h")
  show False
  proof (cases res)
    case (Inl ex)
    with p x c show False
      by (simp add: exec_script_in_current_scene_def split: sum.splits)
  next
    case (Inr ns)
    with p e have "ns ''rendermind_action'' = None"
      unfolding empty_defines_nothing_def by blast
    with Inr p x c show False
      by (simp add: exec_script_in_current_scene_def split: sum.splits)
  qed
qed

lemma auto_step_messages:
  assumes "tame (py_exec env)" and "chat_messages (props g) = ms @ [am]"
    and "code am = c" and "status am = NONE"
  shows "\<exists>am'. chat_messages (props (snd (auto_execute_step env c (length ms) g))) = ms @ [am'] \<and>
           code am' = c \<and> status am' \<noteq> THINKING \<and>
           (status am' = SUCCESS \<longrightarrow> fst (exec_script_in_current_scene (py_exec env) c g) = Inr ())"
proof (cases "faults g ''blender_utils''")
  case (Some t)
  with assms(2-4) show ?thesis
    by (cases "faults g ''str''")
       (simp_all add: auto_execute_step_def action_defs host_updates Let_def)
next
  case None
  obtain r g1 where x: "exec_script_in_current_scene (py_exec env) c g = (r, g1)"
    by (cases "exec_script_in_current_scene (py_exec env) c g")
  from tame_exec[OF assms(1) x] have t: "props g1 = props g" "faults g1 = faults g"
    "\<forall>e. r = Inl e \<longrightarrow> is_Exception e" by auto
  show ?thesis
  proof (cases r)
    case (Inr u)
    with None x t(1,2) assms(2-4) show ?thesis
      by (simp add: auto_execute_step_def action_defs host_updates Let_def)
  next
    case (Inl e)
    with t have "is_Exception e" by simp
    with Inl None x t(1,2) assms(2-4) show ?thesis
      by (cases "faults g ''str''")
         (simp_all add: auto_execute_step_def action_defs host_updates Let_def)
  qed
qed

lemma send_handler_messages:
  "\<exists>new. chat_messages (props (snd (send_handler env e g))) = chat_messages (props g) @ new \<and>
         no_success new"
  by (cases "faults g ''traceback''"; cases "faults g ''str''"; cases "faults g ''datetime''")
     (simp_all add: send_handler_def action_defs host_updates Let_def no_success_def new_message_def)

lemma tail_keeps_messages:
  "chat_messages (props (snd (then_do X (\<lambda>u. then_do (assign (set_thinking False)) (\<lambda>u. finish FINISHED)) g))) =
   chat_messages (props (snd (X g)))"
  by (cases "X g"; cases "fst (X g)") (simp_all add: action_defs host_updates)

lemma send_try_messages:
  assumes "tame (py_exec env)" and "u = py_strip (chat_input (props h))"
  shows "\<exists>new. chat_messages (props (snd (send_try env u h))) = chat_messages (props h) @ new \<and>
           (\<forall>m \<in> set new. status m = SUCCESS \<longrightarrow> executed_script env h m)"
proof (cases "faults h ''datetime'' = None \<and> faults h ''model_interface'' = None")
  case False
  then show ?thesis
    by (cases "faults h ''datetime''"; cases "faults h ''model_interface''")
       (simp_all add: send_try_def action_defs host_updates Let_def new_message_def)
next
  case ok: True
  show ?thesis
  proof (cases "generate env u")
    case (Inl e)
    with ok show ?thesis
      by (simp add: send_try_def action_defs host_updates Let_def new_message_def)
  next
    case (Inr t)
    obtain cv am er where t: "t = (cv, am, er)" by (cases t)
    show ?thesis
    proof (cases "truthy er")
      case True
      with Inr t ok show ?thesis
        by (simp add: send_try_def report_backend_error_def action_defs host_updates Let_def
              new_message_def butlast_append)
    next
      case False
      show ?thesis
      proof (cases am)
        case None
        with False Inr t ok show ?thesis
          by (simp add: send_try_def respond_def action_defs host_updates Let_def new_message_def)
      next
        case (Some msg)
        show ?thesis
        proof (cases cv)
          case None
          with Some False Inr t ok show ?thesis
            by (simp add: send_try_def respond_def action_defs host_updates Let_def new_message_def
                  butlast_append)
        next
          case (Some c)
          let ?g = "awaiting_execution env u msg c h"
          let ?um = "new_message\<lparr>role := USER, content := u, timestamp := clock env (ticks h)\<rparr>"
          let ?am = "new_message\<lparr>role := AI, content := msg, code := c,
                          timestamp := clock env (Suc (ticks h)), status := NONE\<rparr>"
          let ?X = "\<lambda>g. (if auto_execute (props g)
                         then auto_execute_step env c (length (chat_messages (props g)) - 1)
                         else assign (report INFO ''Response generated. Click 'Run' to execute.'')) g"
          have gen: "generate env u = Inr (Some c, Some msg, er)"
            using Inr t Some \<open>am = Some msg\<close> by simp
          have r: "send_try env u h =
            then_do ?X (\<lambda>u. then_do (assign (set_thinking False)) (\<lambda>u. finish FINISHED)) ?g"
            using ok gen False by (intro send_reaches_execution) simp_all
          have mg: "chat_messages (props ?g) = (chat_messages (props h) @ [?um]) @ [?am]"
            by (simp add: awaiting_execution_def)
          have m: "chat_messages (props (snd (send_try env u h))) = chat_messages (props (snd (?X ?g)))"
            unfolding r by (rule tail_keeps_messages)
          show ?thesis
          proof (cases "auto_execute (props ?g)")
            case nauto: False
            with m mg have "chat_messages (props (snd (send_try env u h))) = chat_messages (props h) @ [?um, ?am]"
              by (simp add: action_defs host_updates)
            then show ?thesis by (simp add: new_message_def)
          next
            case True
            have l: "length (chat_messages (props ?g)) - 1 = length (chat_messages (props h) @ [?um])"
              by (simp add: awaiting_execution_def)
            from auto_step_messages[OF assms(1) mg, of c] obtain am' where
              a: "chat_messages (props (snd (auto_execute_step env c (length (chat_messages (props h) @ [?um])) ?g))) =
                    (chat_messages (props h) @ [?um]) @ [am']"
                 "code am' = c"
                 "status am' = SUCCESS \<longrightarrow> fst (exec_script_in_current_scene (py_exec env) c ?g) = Inr ()"
              by auto
            from True m l a(1) have "chat_messages (props (snd (send_try env u h))) =
                chat_messages (props h) @ [?um, am']" by simp
            moreover have "status am' = SUCCESS \<longrightarrow> executed_script env h am'"
              using a(2,3) gen assms(2) unfolding executed_script_def by blast
            ultimately show ?thesis by (simp add: new_message_def)
          qed
        qed
      qed
    qed
  qed
qed

lemma send_messages:
  assumes "tame (py_exec env)"
  shows "\<exists>new. chat_messages (props (snd (RM_OT_SendMessage_execute env h))) = chat_messages (props h) @ new \<and>
           (\<forall>m \<in> set new. status m = SUCCESS \<longrightarrow> executed_script env h m)"
proof (cases "py_strip (chat_input (props h)) = []")
  case True
  then show ?thesis by (simp add: RM_OT_SendMessage_execute_def action_defs host_updates)
next
  case False
  let ?u = "py_strip (chat_input (props h))"
  obtain r h1 where s: "send_try env ?u h = (r, h1)" by (cases "send_try env ?u h")
  from send_try_messages[OF assms refl, of h] s obtain new where
    n: "chat_messages (props h1) = chat_messages (props h) @ new"
       "\<forall>m \<in> set new. status m = SUCCESS \<longrightarrow> executed_script env h m" by auto
  show ?thesis
  proof (cases "\<exists>e. r = Inl e \<and> is_Exception e")
    case nh: False
    with False s have "snd (RM_OT_SendMessage_execute env h) = h1"
      by (cases r) (auto simp: RM_OT_SendMessage_execute_def try_except_def Let_def)
    with n show ?thesis by auto
  next
    case True
    then obtain e where e: "r = Inl e" "is_Exception e" by blast
    with False s have h: "snd (RM_OT_SendMessage_execute env h) = snd (send_handler env e h1)"
      by (simp add: RM_OT_SendMessage_execute_def try_except_def Let_def)
    from send_handler_messages[of env e h1] obtain hnew where
      hn: "chat_messages (props (snd (send_handler env e h1))) = chat_messages (props h1) @ hnew"
          "no_success hnew" by blast
    from h hn n have "chat_messages (props (snd (RM_OT_SendMessage_execute env h))) =
        chat_messages (props h) @ (new @ hnew)" by simp
    moreover have "\<forall>m \<in> set (new @ hnew). status m = SUCCESS \<longrightarrow> executed_script env h m"
      using n(2) hn(2) by (auto simp: no_success_def)
    ultimately show ?thesis by blast
  qed
qed

lemma executed_script_nonempty:
  "empty_defines_nothing (py_exec env) \<Longrightarrow> executed_script env h m \<Longrightarrow> code m \<noteq> []"
  unfolding executed_script_def by (auto dest: exec_ok_nonempty)

lemma send_keeps_invariant:
  assumes "tame (py_exec env)" and "empty_defines_nothing (py_exec env)" and "success_has_code h"
  shows "success_has_code (snd (RM_OT_SendMessage_execute env h))"
proof -
  from send_messages[OF assms(1), of h] obtain new where
    "chat_messages (props (snd (RM_OT_SendMessage_execute env h))) = chat_messages (props h) @ new"
    "\<forall>m \<in> set new. status m = SUCCESS \<longrightarrow> executed_script env h m" by blast
  with assms(2,3) show ?thesis
    by (auto simp: success_has_code_def dest: executed_script_nonempty)
qed

lemma run_messages:
  assumes "tame py_ex"
  shows "chat_messages (props (snd (RM_OT_RunMessageCode_execute py_ex k h))) = chat_messages (props h) \<or>
   (\<exists>i st em. i < length (chat_messages (props h)) \<and>
      int i = (if k < 0 then k + int (length (chat_messages (props h))) else k) \<and>
      code (chat_messages (props h) ! i) \<noteq> [] \<and>
      chat_messages (props (snd (RM_OT_RunMessageCode_execute py_ex k h))) =
        (chat_messages (props h))[i := (chat_messages (props h) ! i)\<lparr>status := st, error_msg := em\<rparr>] \<and>
      (st = SUCCESS \<or> st = ERROR) \<and>
      (st = SUCCESS \<longrightarrow> fst (validate_and_exec py_ex (code (chat_messages (props h) ! i)) h) = Inr ()))"
proof -
  let ?ms = "chat_messages (props h)"
  let ?n = "int (length ?ms)"
  let ?i = "nat (if k < 0 then k + ?n else k)"
  let ?R = "RM_OT_RunMessageCode_execute py_ex k h"
  show ?thesis
  proof (cases "faults h ''len'' \<noteq> None \<or> k \<ge> ?n \<or> k + ?n < 0 \<or> code (?ms ! ?i) = []")
    case True
    then have "chat_messages (props (snd ?R)) = ?ms"
      by (cases "faults h ''len''")
         (auto simp: RM_OT_RunMessageCode_execute_def action_defs host_updates Let_def)
    then show ?thesis by simp
  next
    case False
    then have i: "?i < length ?ms" and ii: "int ?i = (if k < 0 then k + ?n else k)"
      and c: "code (?ms ! ?i) \<noteq> []" and len: "faults h ''len'' = None" by auto
    obtain r h1 where v: "validate_and_exec py_ex (code (?ms ! ?i)) h = (r, h1)"
      by (cases "validate_and_exec py_ex (code (?ms ! ?i)) h")
    from tame_validate_and_exec[OF assms v] have t: "props h1 = props h" "faults h1 = faults h"
      "\<forall>e. r = Inl e \<longrightarrow> is_Exception e" by auto
    have up: "(?ms ! ?i)\<lparr>status := ERROR\<rparr> = (?ms ! ?i)\<lparr>status := ERROR, error_msg := error_msg (?ms ! ?i)\<rparr>"
      by simp
    show ?thesis
    proof (cases r)
      case (Inr u)
      with False v t i len have "chat_messages (props (snd ?R)) =
          ?ms[?i := (?ms ! ?i)\<lparr>status := SUCCESS, error_msg := []\<rparr>]"
        by (simp add: RM_OT_RunMessageCode_execute_def action_defs host_updates Let_def)
      moreover have "fst (validate_and_exec py_ex (code (?ms ! ?i)) h) = Inr ()"
        using v Inr by simp
      ultimately show ?thesis using i ii c by blast
    next
      case (Inl e)
      with t have ex: "is_Exception e" by simp
      show ?thesis
      proof (cases "faults h ''traceback''")
        case (Some tb)
        with Inl ex False v t i len have "chat_messages (props (snd ?R)) = ?ms"
          by (simp add: RM_OT_RunMessageCode_execute_def run_handler_def action_defs host_updates Let_def)
        then show ?thesis by simp
      next
        case None
        show ?thesis
        proof (cases "faults h ''str''")
          case (Some s)
          with None Inl ex False v t i len have "chat_messages (props (snd ?R)) =
              ?ms[?i := (?ms ! ?i)\<lparr>status := ERROR, error_msg := error_msg (?ms ! ?i)\<rparr>]"
            by (simp add: RM_OT_RunMessageCode_execute_def run_handler_def action_defs host_updates Let_def)
          with i ii c show ?thesis by blast
        next
          case nstr: None
          with None Inl ex False v t i len have "chat_messages (props (snd ?R)) =
              ?ms[?i := (?ms ! ?i)\<lparr>status := ERROR, error_msg := py_str e\<rparr>]"
            by (simp add: RM_OT_RunMessageCode_execute_def run_handler_def action_defs host_updates Let_def)
          with i ii c show ?thesis by blast
        qed
      qed
    qed
  qed
qed

lemma run_keeps_code:
  assumes "tame py_ex"
  shows "map code (chat_messages (props (snd (RM_OT_RunMessageCode_execute py_ex k h)))) =
         map code (chat_messages (props h))"
proof -
  have "\<And>i st em ms. i < length ms \<Longrightarrow>
          map code (ms[i := (ms ! i)\<lparr>status := st, error_msg := em\<rparr>]) = map code ms"
    by (simp add: map_update list_update_same_conv)
  with run_messages[OF assms, of k h] show ?thesis by auto
qed

lemma run_status_change:
  assumes "tame py_ex" and "j < length (chat_messages (props h))"
    and "status (chat_messages (props (snd (RM_OT_RunMessageCode_execute py_ex k h))) ! j) \<noteq>
         status (chat_messages (props h) ! j)"
  shows "int j = (if k < 0 then k + int (length (chat_messages (props h))) else k) \<and>
         code (chat_messages (props h) ! j) \<noteq> [] \<and>
         (status (chat_messages (props (snd (RM_OT_RunMessageCode_execute py_ex k h))) ! j) = SUCCESS \<or>
          status (chat_messages (props (snd (RM_OT_RunMessageCode_execute py_ex k h))) ! j) = ERROR) \<and>
         (status (chat_messages (props (snd (RM_OT_RunMessageCode_execute py_ex k h))) ! j) = SUCCESS \<longrightarrow>
            fst (validate_and_exec py_ex (code (chat_messages (props h) ! j)) h) = Inr ())"
proof -
  from run_messages[OF assms(1), of k h] assms(3) obtain i st em where
    i: "i < length (chat_messages (props h))"
       "int i = (if k < 0 then k + int (length (chat_messages (props h))) else k)"
       "code (chat_messages (props h) ! i) \<noteq> []"
       "chat_messages (props (snd (RM_OT_RunMessageCode_execute py_ex k h))) =
        (chat_messages (props h))[i := (chat_messages (props h) ! i)\<lparr>status := st, error_msg := em\<rparr>]"
       "st = SUCCESS \<or> st = ERROR"
       "st = SUCCESS \<longrightarrow> fst (validate_and_exec py_ex (code (chat_messages (props h) ! i)) h) = Inr ()"
    by auto
  have "j = i"
  proof (rule ccontr)
    assume "j \<noteq> i"
    with i(4) assms(2,3) show False by simp
  qed
  with i show ?thesis by simp
qed

lemma run_keeps_invariant:
  assumes "tame py_ex" and "success_has_code h"
  shows "success_has_code (snd (RM_OT_RunMessageCode_execute py_ex k h))"
proof -
  from run_messages[OF assms(1), of k h] show ?thesis
  proof
    assume "chat_messages (props (snd (RM_OT_RunMessageCode_execute py_ex k h))) = chat_messages (props h)"
    with assms(2) show ?thesis by (simp add: success_has_code_def)
  next
    assume "\<exists>i st em. i < length (chat_messages (props h)) \<and>
      int i = (if k < 0 then k + int (length (chat_messages (props h))) else k) \<and>
      code (chat_messages (props h) ! i) \<noteq> [] \<and>
      chat_messages (props (snd (RM_OT_RunMessageCode_execute py_ex k h))) =
        (chat_messages (props h))[i := (chat_messages (props h) ! i)\<lparr>status := st, error_msg := em\<rparr>] \<and>
      (st = SUCCESS \<or> st = ERROR) \<and>
      (st = SUCCESS \<longrightarrow> fst (validate_and_exec py_ex (code (chat_messages (props h) ! i)) h) = Inr ())"
    then obtain i st em where
      i: "i < length (chat_messages (props h))" "code (chat_messages (props h) ! i) \<noteq> []"
         "chat_messages (props (snd (RM_OT_RunMessageCode_execute py_ex k h))) =
          (chat_messages (props h))[i := (chat_messages (props h) ! i)\<lparr>status := st, error_msg := em\<rparr>]"
      by blast
    have "set ((chat_messages (props h))[i := (chat_messages (props h) ! i)\<lparr>status := st, error_msg := em\<rparr>])
            \<subseteq> insert ((chat_messages (props h) ! i)\<lparr>status := st, error_msg := em\<rparr>) (set (chat_messages (props h)))"
      by (rule set_update_subset_insert)
    with i(2,3) assms(2) show ?thesis by (auto simp: success_has_code_def)
  qed
qed

lemma clear_keeps_invariant: "success_has_code (snd (RM_OT_ClearChat_execute h))"
  by (simp add: success_has_code_def RM_OT_ClearChat_execute_def report_def)


lemma tame_defining: "tame defining_interpreter"
  by (simp add: tame_def defining_interpreter_def)





text \<open>
  Claim C5, as the code has it. With scripts that raise only exceptions of class
  \<open>Exception\<close> and leave the conversation properties and the module's globals as
  they are, the operators keep the invariant that every turn with status \<open>SUCCESS\<close>
  carries code: \<open>RM_OT_RunMessageCode.execute\<close> and \<open>RM_OT_ClearChat.execute\<close> always,
  \<open>RM_OT_SendMessage.execute\<close> when the empty script defines no entry point. The
  code is the script that was executed: \<open>RM_OT_SendMessage.execute\<close> only appends
  turns, and an appended turn with status \<open>SUCCESS\<close> carries the script the backend
  returned, whose execution returned; \<open>RM_OT_RunMessageCode.execute\<close> changes no
  code, changes the status of no turn but the one at its index, only when that turn
  carries code, only to \<open>SUCCESS\<close> or \<open>ERROR\<close>, and to \<open>SUCCESS\<close> only when validating
  and executing that code returned.
\<close>

theorem success_turns_carry_code:
  "(tame py_ex \<and> success_has_code h \<longrightarrow>
      success_has_code (snd (RM_OT_RunMessageCode_execute py_ex k h))) \<and>
   success_has_code (snd (RM_OT_ClearChat_execute h)) \<and>
   (tame (py_exec env) \<and> empty_defines_nothing (py_exec env) \<and> success_has_code h \<longrightarrow>
      success_has_code (snd (RM_OT_SendMessage_execute env h))) \<and>
   (tame (py_exec env) \<longrightarrow>
      (\<exists>new. chat_messages (props (snd (RM_OT_SendMessage_execute env h))) =
                chat_messages (props h) @ new \<and>
             (\<forall>m \<in> set new. status m = SUCCESS \<longrightarrow> executed_script env h m))) \<and>
   (tame py_ex \<longrightarrow>
      map code (chat_messages (props (snd (RM_OT_RunMessageCode_execute py_ex k h)))) =
      map code (chat_messages (props h))) \<and>
   (\<forall>j. tame py_ex \<and> j < length (chat_messages (props h)) \<and>
        status (chat_messages (props (snd (RM_OT_RunMessageCode_execute py_ex k h))) ! j) \<noteq>
        status (chat_messages (props h) ! j) \<longrightarrow>
        int j = (if k < 0 then k + int (length (chat_messages (props h))) else k) \<and>
        code (chat_messages (props h) ! j) \<noteq> [] \<and>
        (status (chat_messages (props (snd (RM_OT_RunMessageCode_execute py_ex k h))) ! j) = SUCCESS \<or>
         status (chat_messages (props (snd (RM_OT_RunMessageCode_execute py_ex k h))) ! j) = ERROR) \<and>
        (status (chat_messages (props (snd (RM_OT_RunMessageCode_execute py_ex k h))) ! j) = SUCCESS \<longrightarrow>
           fst (validate_and_exec py_ex (code (chat_messages (props h) ! j)) h) = Inr ()))"
  using run_keeps_invariant[of py_ex h k] clear_keeps_invariant[of h]
        send_keeps_invariant[of env h] send_messages[of env h] run_keeps_code[of py_ex k h]
        run_status_change[of py_ex _ h k]
  by blast

theorem success_turns_carry_code_witness:
  "tame (py_exec send_env1) \<and> empty_defines_nothing (py_exec send_env1) \<and>
   success_has_code host0 \<and>
   map status (chat_messages (props (snd (RM_OT_SendMessage_execute send_env1 host0)))) = [NONE, SUCCESS] \<and>
   map code (chat_messages (props (snd (RM_OT_SendMessage_execute send_env1 host0)))) = [[], working_script] \<and>
   success_has_code (snd (RM_OT_SendMessage_execute send_env1 host0)) \<and>
   executed_script send_env1 host0
     (chat_messages (props (snd (RM_OT_SendMessage_execute send_env1 host0))) ! 1) \<and>
   map status (chat_messages (props host1)) = [NONE] \<and>
   map status (chat_messages (props (snd (RM_OT_RunMessageCode_execute defining_interpreter 0 host1)))) = [ERROR] \<and>
   map code (chat_messages (props (snd (RM_OT_RunMessageCode_execute defining_interpreter 0 host1)))) = [''import os''] \<and>
   success_has_code (snd (RM_OT_RunMessageCode_execute defining_interpreter 0 host1))"
proof -
  have t: "tame (py_exec send_env1)" using tame_defining by (simp add: send_env1_def)
  have a: "success_has_code host0" by (simp add: success_has_code_def host0_def host_with_def)
  have a1: "success_has_code host1"
    by (simp add: success_has_code_def host1_def host_with_def new_message_def)
  have b: "empty_defines_nothing (py_exec send_env1)"
    by (simp add: empty_defines_nothing_def send_env1_def defining_interpreter_def)
  have c: "map status (chat_messages (props (snd (RM_OT_SendMessage_execute send_env1 host0)))) = [NONE, SUCCESS] \<and>
           map code (chat_messages (props (snd (RM_OT_SendMessage_execute send_env1 host0)))) = [[], working_script]"
    by code_simp
  have d: "map status (chat_messages (props (snd (RM_OT_RunMessageCode_execute defining_interpreter 0 host1)))) = [ERROR]"
    by code_simp
  have e: "map code (chat_messages (props host1)) = [''import os'']" by code_simp
  have e1: "map status (chat_messages (props host1)) = [NONE]" by code_simp
  have m0: "chat_messages (props host0) = []" by (simp add: host0_def host_with_def)
  from success_turns_carry_code[of defining_interpreter host0 0 send_env1] t a b
  have 1: "success_has_code (snd (RM_OT_SendMessage_execute send_env1 host0))" by blast
  from success_turns_carry_code[of defining_interpreter host0 0 send_env1] t m0
  obtain new where
    n: "chat_messages (props (snd (RM_OT_SendMessage_execute send_env1 host0))) = new"
       "\<forall>m \<in> set new. status m = SUCCESS \<longrightarrow> executed_script send_env1 host0 m"
    by auto
  from c n(1) have l: "length new = 2" "status (new ! 1) = SUCCESS"
    by (auto dest: arg_cong[where f = length] simp: list_eq_iff_nth_eq)
  then have "new ! 1 \<in> set new" by simp
  with n(2) l(2) have 3: "executed_script send_env1 host0
     (chat_messages (props (snd (RM_OT_SendMessage_execute send_env1 host0))) ! 1)"
    using n(1) by simp
  from success_turns_carry_code[of defining_interpreter host1 0 send_env1] e tame_defining
  have 2: "map code (chat_messages (props (snd (RM_OT_RunMessageCode_execute defining_interpreter 0 host1)))) = [''import os'']"
    by simp
  from success_turns_carry_code[of defining_interpreter host1 0 send_env1] a1 tame_defining
  have 4: "success_has_code (snd (RM_OT_RunMessageCode_execute defining_interpreter 0 host1))"
    by blast
  from t a b c d e1 1 2 3 4 show ?thesis by blast
qed

text \<open>
  The claim as the spec words it fails for \<open>ERROR\<close> and for \<open>NONE\<close>: when the backend
  answers with an error, the turn appended has status \<open>ERROR\<close> and no code; with
  auto-execute off, the assistant turn has status \<open>NONE\<close> and carries the script.
  It also fails for \<open>SUCCESS\<close> when the script writes to the conversation: in the
  third run the generated script passes \<open>validate_script\<close> and sets the status of
  the first turn, the user's, which carries no code.
\<close>

theorem error_turn_without_code:
  "map status (chat_messages (props (snd (RM_OT_SendMessage_execute send_env2 host0)))) = [NONE, ERROR] \<and>
   map code (chat_messages (props (snd (RM_OT_SendMessage_execute send_env2 host0)))) = [[], []] \<and>
   map status (chat_messages (props (snd (RM_OT_SendMessage_execute send_env1 host2)))) = [NONE, NONE] \<and>
   map code (chat_messages (props (snd (RM_OT_SendMessage_execute send_env1 host2)))) = [[], working_script] \<and>
   validate_script marking_script = Inr () \<and>
   map status (chat_messages (props (snd (RM_OT_SendMessage_execute send_env3 host0)))) = [SUCCESS, SUCCESS] \<and>
   map code (chat_messages (props (snd (RM_OT_SendMessage_execute send_env3 host0)))) = [[], marking_script]"
  by code_simp

end
